theory Spec2Isabelle
  imports Complex_Main
begin

section \<open>Configuration manager (config.py)\<close>

text \<open>
  The pydantic model \<open>Config\<close>: the reminder time is a dictionary with the keys
  \<open>hour\<close> and \<open>minute\<close>, both strings; the subscriber list; the flag that
  enables the daily reminder.
\<close>

record Config =
  matchreminder_time :: "string \<rightharpoonup> string"
  matchreminder_list :: "string list"
  enable_auto_reminder :: bool

text \<open>
  \<open>ConfigManager\<close> holds the configuration object and writes it to a file. The
  file is part of the state: \<open>None\<close> when nothing has been written yet. Whether
  opening the file for writing succeeds is decided by the environment and is an argument
  of every operation that saves.
\<close>

record ConfigManager =
  config :: Config
  config_file :: "Config option"

definition save_config :: "bool \<Rightarrow> ConfigManager \<Rightarrow> bool \<times> ConfigManager" where
  "save_config writable m =
     (if writable then (True, m\<lparr>config_file := Some (config m)\<rparr>) else (False, m))"

definition toggle_auto_reminder :: "bool \<Rightarrow> ConfigManager \<Rightarrow> bool \<times> ConfigManager" where
  "toggle_auto_reminder writable m =
     (let m1 = m\<lparr>config := (config m)\<lparr>enable_auto_reminder := \<not> enable_auto_reminder (config m)\<rparr>\<rparr>;
          m2 = snd (save_config writable m1)
      in (enable_auto_reminder (config m2), m2))"

section \<open>Contest data manager (data_source.py): data\<close>

text \<open>
  \<open>ContestInfo\<close> is the source's type alias: contest name, contest time
  (\<open>YYYY-MM-DD HH:MM\<close>), contest link.
\<close>

type_synonym ContestInfo = "string \<times> string \<times> string"

text \<open>The exception classes that the source raises, catches or lets escape.\<close>

datatype py_error =
    TimeoutException | HTTPStatusError | JSONDecodeError | KeyError | TypeError
  | AttributeError | ValueError | IndexError | OSError | OverflowError

text \<open>
  A float: a finite double, given by the real it denotes, an infinity or a NaN
  (\<open>json.load\<close> reads \<open>Infinity\<close>, \<open>-Infinity\<close> and \<open>NaN\<close>, and a
  literal beyond the range of the doubles as an infinity).
\<close>

datatype pyfloat = Finite real | Inf | NegInf | NaN

text \<open>
  A value as \<open>json.load\<close> returns it. A dictionary is an association list whose
  first binding of a key is the dictionary's; an integer is unbounded.
\<close>

datatype pyval =
    PNone | PBool bool | PInt int | PFloat pyfloat | PStr string | PList "pyval list"
  | PDict "(string \<times> pyval) list"

text \<open>
  The arithmetic of the doubles that \<open>_load_cache\<close> uses, taken from the machine:
  \<open>fsub x y\<close> is the double that \<open>x - y\<close> gives for two finite doubles (the exact
  difference rounded to the nearest double; for a current time it stays finite), and
  \<open>float_of_int i\<close> is the double an integer is converted to before the subtraction,
  \<open>None\<close> when the integer is too large and the conversion raises
  \<open>OverflowError\<close>.
\<close>

record float_ops =
  fsub :: "real \<Rightarrow> real \<Rightarrow> real"
  float_of_int :: "int \<Rightarrow> real option"

text \<open>
  The cache file on disk: missing; present but \<open>open\<close> or the read raises the given
  exception; readable but not JSON (\<open>json.load\<close> raises \<open>JSONDecodeError\<close>);
  or JSON, given by the value \<open>json.load\<close> returns.
\<close>

datatype cache_file = Missing | Unreadable py_error | Not_json | Parsed pyval

text \<open>
  The manager object. The attributes \<open>cf\<close>, \<open>nc\<close> and \<open>atc\<close> are
  dynamically typed: \<open>_load_cache\<close> stores whatever the file holds, the fetch
  functions work on lists of \<open>ContestInfo\<close>; the record is polymorphic in their type.
  The cache file is part of the state. Two more fields record the observable effects
  of a fetch: the number of network requests issued and the sequence of the \<open>asyncio.sleep\<close>
  delays, in seconds.
\<close>

record 'a manager =
  cf :: 'a
  nc :: 'a
  atc :: 'a
  cache :: cache_file
  requests :: nat
  slept :: "nat list"

text \<open>
  What the code reads from its environment: the clock (\<open>time.time()\<close>); the local
  calendar, as the function \<open>time.strftime("%Y-%m-%d %H:%M", time.localtime(t))\<close> of
  the epoch second \<open>t\<close> (\<open>None\<close> where \<open>localtime\<close> raises); whether the
  cache file can be written; the normalisation of a Source C time text (remove
  \<open>+0900\<close>, strip, \<open>strptime\<close>, subtract one hour, print, drop the seconds),
  which raises \<open>ValueError\<close> on a text \<open>strptime\<close> rejects; today's date and the
  date \<open>strptime(_, "%Y-%m-%d %H:%M").date()\<close> reads from a contest time
  (\<open>None\<close> where it raises \<open>ValueError\<close>).
\<close>

type_synonym date = "int \<times> int \<times> int"

record env =
  time_time :: real
  strftime_local :: "int \<Rightarrow> string option"
  disk_writable :: bool
  atc_time :: "string \<Rightarrow> py_error + string"
  today :: date
  strptime_date :: "string \<Rightarrow> date option"

subsection \<open>The cache\<close>

definition dict_get :: "(string \<times> pyval) list \<Rightarrow> string \<Rightarrow> pyval \<Rightarrow> pyval" where
  \<comment> \<open>\<open>d.get(k, default)\<close> on a dictionary\<close>
  "dict_get kvs k dflt = (case map_of kvs k of None \<Rightarrow> dflt | Some v \<Rightarrow> v)"

definition float_fresh :: "float_ops \<Rightarrow> real \<Rightarrow> pyfloat \<Rightarrow> bool" where
  \<comment> \<open>\<open>x - f < 3600\<close> for the finite double \<open>x\<close> and a float \<open>f\<close>\<close>
  "float_fresh ops x f =
     (case f of
        Finite y \<Rightarrow> fsub ops x y < 3600
      | Inf \<Rightarrow> True
      | NegInf \<Rightarrow> False
      | NaN \<Rightarrow> False)"

definition cache_fresh :: "float_ops \<Rightarrow> real \<Rightarrow> pyval \<Rightarrow> py_error + bool" where
  \<comment> \<open>\<open>current_time - cache_time < 3600\<close>: the subtraction is defined for floats, for
    integers that a double can hold and for booleans, and raises otherwise.\<close>
  "cache_fresh ops current_time cache_time =
     (case cache_time of
        PFloat f \<Rightarrow> Inr (float_fresh ops current_time f)
      | PInt i \<Rightarrow>
          (case float_of_int ops i of
             None \<Rightarrow> Inl OverflowError
           | Some y \<Rightarrow> Inr (fsub ops current_time y < 3600))
      | PBool b \<Rightarrow> Inr (fsub ops current_time (if b then 1 else 0) < 3600)
      | _ \<Rightarrow> Inl TypeError)"

definition load_handler :: "py_error \<Rightarrow> 's \<Rightarrow> py_error + 's" where
  \<comment> \<open>\<open>except (json.JSONDecodeError, KeyError, TypeError)\<close>: logged; anything else escapes.\<close>
  "load_handler err s =
     (if err = JSONDecodeError \<or> err = KeyError \<or> err = TypeError then Inr s else Inl err)"

text \<open>
  \<open>_load_cache\<close>. \<open>Inl\<close> is an exception that leaves the function. A value that
  is not a dictionary has no method \<open>get\<close>: the first call raises
  \<open>AttributeError\<close>.
\<close>

definition load_cache :: "float_ops \<Rightarrow> real \<Rightarrow> pyval manager \<Rightarrow> py_error + pyval manager" where
  "load_cache ops current_time s =
     (case cache s of
        Missing \<Rightarrow> Inr s
      | Unreadable err \<Rightarrow> load_handler err s
      | Not_json \<Rightarrow> load_handler JSONDecodeError s
      | Parsed cache_data \<Rightarrow>
          (case cache_data of
             PDict kvs \<Rightarrow>
               (case cache_fresh ops current_time (dict_get kvs ''timestamp'' (PInt 0)) of
                  Inl err \<Rightarrow> load_handler err s
                | Inr fresh \<Rightarrow>
                    if fresh
                    then Inr (s\<lparr>cf := dict_get kvs ''cf'' (PList []),
                               nc := dict_get kvs ''nc'' (PList []),
                               atc := dict_get kvs ''atc'' (PList [])\<rparr>)
                    else Inr s)
           | _ \<Rightarrow> load_handler AttributeError s))"

definition init_manager :: "float_ops \<Rightarrow> real \<Rightarrow> cache_file \<Rightarrow> py_error + pyval manager" where
  \<comment> \<open>\<open>__init__\<close>: three empty lists, then \<open>_load_cache\<close>.\<close>
  "init_manager ops current_time file =
     load_cache ops current_time
       \<lparr>cf = PList [], nc = PList [], atc = PList [], cache = file, requests = 0, slept = []\<rparr>"

definition enc_contests :: "ContestInfo list \<Rightarrow> pyval" where
  \<comment> \<open>a list of \<open>[name, time, url]\<close> lists, as \<open>json.dump\<close> writes it and \<open>json.load\<close> reads it back\<close>
  "enc_contests xs = PList (map (\<lambda>(n, t, u). PList [PStr n, PStr t, PStr u]) xs)"

text \<open>
  The object that \<open>_save_cache\<close> writes: the timestamp is the float
  \<open>time.time()\<close>.
\<close>

definition snapshot_at :: "pyval \<Rightarrow> pyval \<Rightarrow> pyval \<Rightarrow> pyval \<Rightarrow> pyval" where
  "snapshot_at ts c n a = PDict [(''timestamp'', ts), (''cf'', c), (''nc'', n), (''atc'', a)]"

definition snapshot :: "real \<Rightarrow> pyval \<Rightarrow> pyval \<Rightarrow> pyval \<Rightarrow> pyval" where
  "snapshot t c n a = snapshot_at (PFloat (Finite t)) c n a"

definition save_cache :: "env \<Rightarrow> ContestInfo list manager \<Rightarrow> ContestInfo list manager" where
  \<comment> \<open>a failed write is logged and swallowed\<close>
  "save_cache e s =
     (if disk_writable e
      then s\<lparr>cache := Parsed (snapshot (time_time e)
                 (enc_contests (cf s)) (enc_contests (nc s)) (enc_contests (atc s)))\<rparr>
      else s)"

subsection \<open>The retry loop shared by the three fetch functions\<close>

text \<open>
  How one pass through the body of \<open>for attempt in range(max_retries)\<close> ends:
  \<open>return True\<close>; \<open>continue\<close>; an exception, caught by one of the
  \<open>except\<close> clauses (which only log); or the end of the \<open>try\<close> block without
  a \<open>return\<close>. After the last two the code reaches the backoff
  \<open>if attempt < max_retries - 1: await asyncio.sleep(2 ** attempt)\<close>;
  \<open>continue\<close> jumps over it.
\<close>

datatype outcome = Returned | Continued | Raised py_error | Fell_through

definition max_retries :: nat where
  "max_retries = 3"

definition asyncio_sleep :: "nat \<Rightarrow> 'a manager \<Rightarrow> 'a manager" where
  "asyncio_sleep d s = s\<lparr>slept := slept s @ [d]\<rparr>"

definition backoff :: "nat \<Rightarrow> 'a manager \<Rightarrow> 'a manager" where
  "backoff attempt s = (if attempt < max_retries - 1 then asyncio_sleep (2 ^ attempt) s else s)"

fun retry_loop ::
  "(nat \<Rightarrow> 'a manager \<Rightarrow> outcome \<times> 'a manager) \<Rightarrow> nat list \<Rightarrow> 'a manager \<Rightarrow> bool \<times> 'a manager"
where
  "retry_loop body [] s = (False, s)"
| "retry_loop body (attempt # rest) s =
     (case body attempt s of
        (Returned, s1) \<Rightarrow> (True, s1)
      | (Continued, s1) \<Rightarrow> retry_loop body rest s1
      | (Raised err, s1) \<Rightarrow> retry_loop body rest (backoff attempt s1)
      | (Fell_through, s1) \<Rightarrow> retry_loop body rest (backoff attempt s1))"

subsection \<open>Source A: \<open>get_data_cf\<close>\<close>

definition digit_char :: "nat \<Rightarrow> char" where
  "digit_char d = char_of (48 + d)"

fun str_nat :: "nat \<Rightarrow> string" where
  "str_nat n = (if n < 10 then [digit_char n] else str_nat (n div 10) @ [digit_char (n mod 10)])"

declare str_nat.simps [simp del]

definition str_int :: "int \<Rightarrow> string" where
  \<comment> \<open>the decimal text an f-string prints for an integer\<close>
  "str_int i = (if i < 0 then CHR ''-'' # str_nat (nat (- i)) else str_nat (nat i))"

text \<open>
  An element of \<open>data['result']\<close>; \<open>None\<close> is a missing key, on which
  \<open>contest[key]\<close> raises \<open>KeyError\<close>.
\<close>

record cf_contest =
  phase :: "string option"
  name :: "string option"
  startTimeSeconds :: "int option"
  contest_id :: "int option"

text \<open>
  What one attempt receives: an exception from the request, from
  \<open>raise_for_status\<close>, from \<open>response.json()\<close> or from
  \<open>data.get\<close> on a value that is no object; or the JSON object, given by
  \<open>data.get('status')\<close> and \<open>data['result']\<close> (\<open>None\<close>: the key is missing).
\<close>

datatype cf_response = Cf_raises py_error | Cf_json "string option" "cf_contest list option"

text \<open>
  The loop over \<open>data['result']\<close>, appending to \<open>self.cf\<close> (the accumulator).
  An exception leaves the loop with what has been appended so far.
\<close>

fun cf_collect :: "env \<Rightarrow> cf_contest list \<Rightarrow> ContestInfo list \<Rightarrow> py_error option \<times> ContestInfo list" where
  "cf_collect e [] acc = (None, acc)"
| "cf_collect e (contest # rest) acc =
     (case phase contest of
        None \<Rightarrow> (Some KeyError, acc)
      | Some ph \<Rightarrow>
          if ph \<noteq> ''BEFORE'' then (None, acc)
          else (case name contest of
             None \<Rightarrow> (Some KeyError, acc)
           | Some contest_name \<Rightarrow>
          (case startTimeSeconds contest of
             None \<Rightarrow> (Some KeyError, acc)
           | Some t \<Rightarrow>
          (case strftime_local e t of
             None \<Rightarrow> (Some OverflowError, acc)
           | Some contest_time \<Rightarrow>
          (case contest_id contest of
             None \<Rightarrow> (Some KeyError, acc)
           | Some i \<Rightarrow>
               cf_collect e rest
                 (acc @ [(contest_name, contest_time,
                          ''https://codeforces.com/contest/'' @ str_int i)]))))))"

definition cf_attempt ::
  "env \<Rightarrow> cf_response \<Rightarrow> ContestInfo list manager \<Rightarrow> outcome \<times> ContestInfo list manager"
where
  "cf_attempt e resp s0 =
     (let s = s0\<lparr>cf := [], requests := requests s0 + 1\<rparr> in
      case resp of
        Cf_raises err \<Rightarrow> (Raised err, s)
      | Cf_json status result \<Rightarrow>
          if status \<noteq> Some ''OK'' then (Continued, s)
          else (case result of
             None \<Rightarrow> (Raised KeyError, s)
           | Some entries \<Rightarrow>
               (case cf_collect e entries (cf s) of
                  (Some err, xs) \<Rightarrow> (Raised err, s\<lparr>cf := xs\<rparr>)
                | (None, xs) \<Rightarrow> (Returned, save_cache e (s\<lparr>cf := rev xs\<rparr>)))))"

text \<open>\<open>net attempt\<close> is what the network answers to the request of that attempt.\<close>

definition get_data_cf ::
  "env \<Rightarrow> bool \<Rightarrow> (nat \<Rightarrow> cf_response) \<Rightarrow> ContestInfo list manager \<Rightarrow> bool \<times> ContestInfo list manager"
where
  "get_data_cf e force_refresh net s =
     (if \<not> force_refresh \<and> cf s \<noteq> [] then (True, s)
      else retry_loop (\<lambda>attempt. cf_attempt e (net attempt)) [0..<max_retries] s)"

subsection \<open>Source B: \<open>get_data_nc\<close>\<close>

text \<open>
  An element of \<open>data['data']\<close>: the start time in epoch milliseconds, the name and
  the link; \<open>None\<close> is a missing key.
\<close>

record nc_contest =
  startTime :: "int option"
  contestName :: "string option"
  link :: "string option"

text \<open>
  The JSON object is given by \<open>data.get('msg')\<close>, \<open>data.get('code')\<close> and
  \<open>data.get("data", [])\<close>.
\<close>

datatype nc_response =
  Nc_raises py_error | Nc_json "string option" "int option" "nc_contest list option"

text \<open>
  The loop over the calendar entries; \<open>current_timestamp\<close> is the request's own
  issue time in milliseconds. \<open>time.localtime\<close> takes the seconds
  \<open>startTime / 1000\<close>, whose minute is the one of \<open>startTime div 1000\<close>.
\<close>

fun nc_collect :: "env \<Rightarrow> int \<Rightarrow> nc_contest list \<Rightarrow> ContestInfo list \<Rightarrow> py_error option \<times> ContestInfo list" where
  "nc_collect e current_timestamp [] acc = (None, acc)"
| "nc_collect e current_timestamp (contest # rest) acc =
     (if (case startTime contest of None \<Rightarrow> 0 | Some t \<Rightarrow> t) \<ge> current_timestamp then
        (let contest_name = (case contestName contest of None \<Rightarrow> [] | Some n \<Rightarrow> n) in
         case startTime contest of
           None \<Rightarrow> (Some KeyError, acc)
         | Some t \<Rightarrow>
             (case strftime_local e (t div 1000) of
                None \<Rightarrow> (Some OverflowError, acc)
              | Some contest_time \<Rightarrow>
                  nc_collect e current_timestamp rest
                    (acc @ [(contest_name, contest_time,
                             (case link contest of None \<Rightarrow> [] | Some u \<Rightarrow> u))])))
      else nc_collect e current_timestamp rest acc)"

definition nc_attempt ::
  "env \<Rightarrow> int \<times> nc_response \<Rightarrow> ContestInfo list manager \<Rightarrow> outcome \<times> ContestInfo list manager"
where
  "nc_attempt e issued s0 =
     (let current_timestamp = fst issued;
          s = s0\<lparr>nc := [], requests := requests s0 + 1\<rparr> in
      case snd issued of
        Nc_raises err \<Rightarrow> (Raised err, s)
      | Nc_json msg code data \<Rightarrow>
          if msg \<noteq> Some ''OK'' \<or> code \<noteq> Some 0 then (Continued, s)
          else (case nc_collect e current_timestamp (case data of None \<Rightarrow> [] | Some d \<Rightarrow> d) (nc s) of
                  (Some err, xs) \<Rightarrow> (Raised err, s\<lparr>nc := xs\<rparr>)
                | (None, xs) \<Rightarrow> (Returned, save_cache e (s\<lparr>nc := xs\<rparr>))))"

text \<open>
  \<open>net attempt\<close> is the pair of the time at which the attempt is issued
  (\<open>int(float(timestamp) * 1000)\<close>) and the answer of the network.
\<close>

definition get_data_nc ::
  "env \<Rightarrow> bool \<Rightarrow> (nat \<Rightarrow> int \<times> nc_response) \<Rightarrow> ContestInfo list manager \<Rightarrow> bool \<times> ContestInfo list manager"
where
  "get_data_nc e force_refresh net s =
     (if \<not> force_refresh \<and> nc s \<noteq> [] then (True, s)
      else retry_loop (\<lambda>attempt. nc_attempt e (net attempt)) [0..<max_retries] s)"

subsection \<open>Source C: \<open>get_data_atc\<close>\<close>

text \<open>
  A \<open>td\<close> cell of the table, as far as the code looks into it: the first \<open>a\<close>
  element, if any, with its text and its \<open>href\<close> attribute, if any; the text of the
  first \<open>time\<close> element, if any.
\<close>

record td_cell =
  a_tag :: "(string \<times> string option) option"
  time_tag :: "string option"

text \<open>
  The page: \<open>None\<close> when there is no element with the id
  \<open>contest-table-upcoming\<close>, \<open>Some None\<close> when it has no \<open>tbody\<close>, else
  the \<open>td\<close> cells of the \<open>tbody\<close>.
\<close>

datatype atc_response = Atc_raises py_error | Atc_page "td_cell list option option"

text \<open>
  \<open>str.strip()\<close> removes the characters for which \<open>str.isspace()\<close> holds. A
  character of the model is a code point below 256; the white space among them is
  U+0009 to U+000D, U+001C to U+0020, U+0085 and U+00A0.
\<close>

definition is_space :: "char \<Rightarrow> bool" where
  "is_space c =
     (c \<in> set [CHR 0x09, CHR 0x0A, CHR 0x0B, CHR 0x0C, CHR 0x0D, CHR 0x1C, CHR 0x1D,
                 CHR 0x1E, CHR 0x1F, CHR 0x20, CHR 0x85, CHR 0xA0])"

definition strip :: "string \<Rightarrow> string" where
  "strip s = rev (dropWhile is_space (rev (dropWhile is_space s)))"

definition py_index :: "'a list \<Rightarrow> nat \<Rightarrow> py_error + 'a" where
  "py_index xs i = (if i < length xs then Inr (xs ! i) else Inl IndexError)"

text \<open>The body of the inner \<open>try\<close>: one contest from the five cells starting at \<open>i\<close>.\<close>

definition atc_row :: "env \<Rightarrow> td_cell list \<Rightarrow> nat \<Rightarrow> py_error + ContestInfo" where
  "atc_row e cells i =
     (case py_index cells (i + 1) of
        Inl err \<Rightarrow> Inl err
      | Inr name_cell \<Rightarrow>
     (case a_tag name_cell of
        None \<Rightarrow> Inl AttributeError
      | Some (text, href) \<Rightarrow>
     (case href of
        None \<Rightarrow> Inl TypeError
      | Some h \<Rightarrow>
     (case py_index cells i of
        Inl err \<Rightarrow> Inl err
      | Inr time_cell \<Rightarrow>
     (case time_tag time_cell of
        None \<Rightarrow> Inl AttributeError
      | Some time_text \<Rightarrow>
     (case atc_time e time_text of
        Inl err \<Rightarrow> Inl err
      | Inr contest_time \<Rightarrow> Inr (strip text, contest_time, ''https://atcoder.jp'' @ h)))))))"

definition py_range :: "nat \<Rightarrow> nat \<Rightarrow> nat list" where
  \<comment> \<open>\<open>range(0, stop, step)\<close>\<close>
  "py_range stop step = filter (\<lambda>i. i mod step = 0) [0..<stop]"

text \<open>
  The loop over the rows. The inner handler
  \<open>except (AttributeError, ValueError, IndexError)\<close> skips the row; any other
  exception leaves the loop.
\<close>

fun atc_rows :: "env \<Rightarrow> td_cell list \<Rightarrow> nat list \<Rightarrow> ContestInfo list \<Rightarrow> py_error + ContestInfo list" where
  "atc_rows e cells [] contests_data = Inr contests_data"
| "atc_rows e cells (i # rest) contests_data =
     (case atc_row e cells i of
        Inr c \<Rightarrow> atc_rows e cells rest (contests_data @ [c])
      | Inl err \<Rightarrow>
          if err = AttributeError \<or> err = ValueError \<or> err = IndexError
          then atc_rows e cells rest contests_data
          else Inl err)"

definition atc_attempt ::
  "env \<Rightarrow> atc_response \<Rightarrow> ContestInfo list manager \<Rightarrow> outcome \<times> ContestInfo list manager"
where
  "atc_attempt e resp s0 =
     (let s = s0\<lparr>atc := [], requests := requests s0 + 1\<rparr> in
      case resp of
        Atc_raises err \<Rightarrow> (Raised err, s)
      | Atc_page None \<Rightarrow> (Continued, s)
      | Atc_page (Some None) \<Rightarrow> (Continued, s)
      | Atc_page (Some (Some cells)) \<Rightarrow>
          if length cells < 10 then (Continued, s)
          else (case atc_rows e cells (py_range (min (length cells) 10) 5) [] of
                  Inl err \<Rightarrow> (Raised err, s)
                | Inr contests_data \<Rightarrow>
                    if contests_data \<noteq> []
                    then (Returned, save_cache e (s\<lparr>atc := take 2 contests_data\<rparr>))
                    else (Fell_through, s)))"

definition get_data_atc ::
  "env \<Rightarrow> bool \<Rightarrow> (nat \<Rightarrow> atc_response) \<Rightarrow> ContestInfo list manager \<Rightarrow> bool \<times> ContestInfo list manager"
where
  "get_data_atc e force_refresh net s =
     (if \<not> force_refresh \<and> atc s \<noteq> [] then (True, s)
      else retry_loop (\<lambda>attempt. atc_attempt e (net attempt)) [0..<max_retries] s)"

subsection \<open>\<open>get_today_info\<close>\<close>

datatype platform = Codeforces | Nowcoder | AtCoder

text \<open>
  The three replies: the error text, the text for a day without contests, and the list
  of today's contests under a heading per platform.
\<close>

datatype today_reply =
  Query_failed | No_contest_today | Today_contests "(platform \<times> ContestInfo list) list"

definition platform_contests :: "env \<Rightarrow> ContestInfo list \<Rightarrow> ContestInfo list" where
  \<comment> \<open>the contests whose time parses to today's date; a time that does not parse is skipped\<close>
  "platform_contests e contests =
     filter (\<lambda>contest. strptime_date e (fst (snd contest)) = Some (today e)) contests"

text \<open>
  \<open>asyncio.gather\<close> runs the three fetches interleaved. Each of them writes its own
  list only, and reads nothing of the other two but for \<open>_save_cache\<close>, so the three
  lists after the gather are those of the three calls made one after the other; the reply
  depends on the lists only.
\<close>

definition get_today_info ::
  "env \<Rightarrow> (nat \<Rightarrow> cf_response) \<Rightarrow> (nat \<Rightarrow> int \<times> nc_response) \<Rightarrow> (nat \<Rightarrow> atc_response)
     \<Rightarrow> ContestInfo list manager \<Rightarrow> today_reply \<times> ContestInfo list manager"
where
  "get_today_info e net_cf net_nc net_atc s =
     (let s1 = snd (get_data_cf e False net_cf s);
          s2 = snd (get_data_nc e False net_nc s1);
          s3 = snd (get_data_atc e False net_atc s2);
          msg_parts =
            concat (map (\<lambda>(p, contests).
                       if platform_contests e contests \<noteq> []
                       then [(p, platform_contests e contests)] else [])
                    [(Codeforces, cf s3), (Nowcoder, nc s3), (AtCoder, atc s3)])
      in (if \<not> (cf s3 \<noteq> [] \<or> nc s3 \<noteq> [] \<or> atc s3 \<noteq> []) then Query_failed
          else if msg_parts = [] then No_contest_today
          else Today_contests msg_parts,
          s3))"

section \<open>Reminder loop (main.py)\<close>

text \<open>
  A naive \<open>datetime\<close>: the date by its proleptic Gregorian ordinal
  (\<open>date.toordinal()\<close>), and the time of day. The dates run from 0001-01-01,
  ordinal 1, to 9999-12-31, ordinal 3652059.
\<close>

record datetime =
  ordinal :: int
  hour :: int
  minute :: int
  second :: int
  microsecond :: int

definition max_ordinal :: int where
  "max_ordinal = 3652059"

definition valid_datetime :: "datetime \<Rightarrow> bool" where
  "valid_datetime d =
     (1 \<le> ordinal d \<and> ordinal d \<le> max_ordinal \<and>
      0 \<le> hour d \<and> hour d \<le> 23 \<and> 0 \<le> minute d \<and> minute d \<le> 59 \<and>
      0 \<le> second d \<and> second d \<le> 59 \<and> 0 \<le> microsecond d \<and> microsecond d \<le> 999999)"

definition dt_replace :: "datetime \<Rightarrow> int \<Rightarrow> int \<Rightarrow> py_error + datetime" where
  \<comment> \<open>\<open>now.replace(hour=h, minute=m, second=0, microsecond=0)\<close>\<close>
  "dt_replace d h m =
     (if 0 \<le> h \<and> h \<le> 23 \<and> 0 \<le> m \<and> m \<le> 59
      then Inr (d\<lparr>hour := h, minute := m, second := 0, microsecond := 0\<rparr>)
      else Inl ValueError)"

fun lex_le :: "int list \<Rightarrow> int list \<Rightarrow> bool" where
  "lex_le [] ys = True"
| "lex_le (x # xs) [] = False"
| "lex_le (x # xs) (y # ys) = (x < y \<or> (x = y \<and> lex_le xs ys))"

definition dt_fields :: "datetime \<Rightarrow> int list" where
  "dt_fields d = [ordinal d, hour d, minute d, second d, microsecond d]"

definition dt_le :: "datetime \<Rightarrow> datetime \<Rightarrow> bool" where
  \<comment> \<open>\<open>a <= b\<close>: the fields compared in order\<close>
  "dt_le a b = lex_le (dt_fields a) (dt_fields b)"

definition dt_less :: "datetime \<Rightarrow> datetime \<Rightarrow> bool" where
  "dt_less a b = (\<not> dt_le b a)"

definition add_days :: "datetime \<Rightarrow> int \<Rightarrow> py_error + datetime" where
  \<comment> \<open>\<open>d + timedelta(days=n)\<close>: a date out of range raises \<open>OverflowError\<close>\<close>
  "add_days d n =
     (if 1 \<le> ordinal d + n \<and> ordinal d + n \<le> max_ordinal
      then Inr (d\<lparr>ordinal := ordinal d + n\<rparr>)
      else Inl OverflowError)"

definition dt_diff :: "datetime \<Rightarrow> datetime \<Rightarrow> int" where
  \<comment> \<open>\<open>a - b\<close>, in microseconds: days, seconds and microseconds subtracted\<close>
  "dt_diff a b =
     (ordinal a - ordinal b) * 86400000000
     + ((hour a * 3600 + minute a * 60 + second a) - (hour b * 3600 + minute b * 60 + second b)) * 1000000
     + (microsecond a - microsecond b)"

text \<open>
  One iteration of \<open>reminder_loop\<close> up to its sleep. \<open>target_hour\<close> and
  \<open>target_minute\<close> are the values of \<open>int(config.matchreminder_time[...])\<close>,
  \<open>None\<close> when the conversion raises \<open>ValueError\<close> or \<open>KeyError\<close>. The
  iteration sleeps an hour after a configuration error, sleeps an hour after any other
  exception, or waits for the target time.
\<close>

datatype iteration =
    Config_error_sleep nat
  | Exception_sleep py_error nat
  | Wait_until datetime int

definition reminder_iteration :: "datetime \<Rightarrow> int option \<Rightarrow> int option \<Rightarrow> iteration" where
  "reminder_iteration now target_hour target_minute =
     (case target_hour of
        None \<Rightarrow> Config_error_sleep 3600
      | Some h \<Rightarrow>
     (case target_minute of
        None \<Rightarrow> Config_error_sleep 3600
      | Some m \<Rightarrow>
     (case dt_replace now h m of
        Inl err \<Rightarrow> Exception_sleep err 3600
      | Inr t \<Rightarrow>
          if dt_le t now then
            (case add_days t 1 of
               Inl err \<Rightarrow> Exception_sleep err 3600
             | Inr target_time \<Rightarrow> Wait_until target_time (dt_diff target_time now))
          else Wait_until t (dt_diff t now))))"

section \<open>Notions used to state the properties\<close>

text \<open>
  A Source A answer that is rejected before the loop over the contests starts: an
  exception, a status other than \<open>OK\<close>, or no \<open>result\<close> key. Likewise for
  Source B: an exception, or a message or code other than \<open>OK\<close> and \<open>0\<close>.
\<close>

definition cf_rejected :: "cf_response \<Rightarrow> bool" where
  "cf_rejected r =
     (case r of
        Cf_raises err \<Rightarrow> True
      | Cf_json status result \<Rightarrow> status \<noteq> Some ''OK'' \<or> result = None)"

definition nc_rejected :: "nc_response \<Rightarrow> bool" where
  "nc_rejected r =
     (case r of
        Nc_raises err \<Rightarrow> True
      | Nc_json msg code data \<Rightarrow> msg \<noteq> Some ''OK'' \<or> code \<noteq> Some 0)"

text \<open>
  The reading of the Source A rule that the fetch is compared with: an entry is upcoming
  when its phase is \<open>BEFORE\<close>, and an entry with all its fields gives one record.
\<close>

definition upcoming :: "cf_contest \<Rightarrow> bool" where
  "upcoming contest = (phase contest = Some ''BEFORE'')"

definition cf_record :: "env \<Rightarrow> cf_contest \<Rightarrow> ContestInfo option" where
  "cf_record e contest =
     (case (name contest, startTimeSeconds contest, contest_id contest) of
        (Some n, Some t, Some i) \<Rightarrow>
          (case strftime_local e t of
             None \<Rightarrow> None
           | Some contest_time \<Rightarrow>
               Some (n, contest_time, ''https://codeforces.com/contest/'' @ str_int i))
      | _ \<Rightarrow> None)"

text \<open>
  A Source C answer that raises nothing and gives no contest: no table, no table body,
  fewer than ten cells, or ten cells and more whose two rows are both skipped.
\<close>

definition atc_without_record :: "env \<Rightarrow> atc_response \<Rightarrow> bool" where
  "atc_without_record e r =
     (case r of
        Atc_raises err \<Rightarrow> False
      | Atc_page None \<Rightarrow> True
      | Atc_page (Some None) \<Rightarrow> True
      | Atc_page (Some (Some cells)) \<Rightarrow>
          length cells < 10
          \<or> atc_rows e cells (py_range (min (length cells) 10) 5) [] = Inr [])"

subsection \<open>Concrete inputs\<close>

text \<open>
  Double arithmetic where it is exact: on the integers below \<open>2 ^ 53\<close> in absolute
  value and their differences. It is used on such numbers only.
\<close>

definition small_int_ops :: float_ops where
  "small_int_ops =
     \<lparr>fsub = (\<lambda>x y. x - y),
      float_of_int = (\<lambda>i. if \<bar>i\<bar> < 2 ^ 53 then Some (of_int i) else None)\<rparr>"

definition example_env :: env where
  "example_env =
     \<lparr>time_time = 1000, strftime_local = (\<lambda>t. Some ''2030-01-01 00:00''),
      disk_writable = False, atc_time = (\<lambda>t. Inr t), today = (2030, 1, 1),
      strptime_date = (\<lambda>t. Some (2030, 1, 1))\<rparr>"

definition held :: "ContestInfo list \<Rightarrow> ContestInfo list manager" where
  \<comment> \<open>a manager that holds the same list for every source, before any request\<close>
  "held xs = \<lparr>cf = xs, nc = xs, atc = xs, cache = Missing, requests = 0, slept = []\<rparr>"

definition entry :: "string \<Rightarrow> string \<Rightarrow> int \<Rightarrow> cf_contest" where
  "entry ph n i = \<lparr>phase = Some ph, name = Some n, startTimeSeconds = Some 0, contest_id = Some i\<rparr>"

definition feed :: "cf_contest list" where
  "feed = [entry ''BEFORE'' ''Round B'' 12, entry ''BEFORE'' ''Round A'' 11,
           entry ''CODING'' ''Round Z'' 10]"

definition past_contest :: nc_contest where
  "past_contest = \<lparr>startTime = Some 4000, contestName = Some ''past'', link = None\<rparr>"

definition blank_cell :: td_cell where
  "blank_cell = \<lparr>a_tag = None, time_tag = None\<rparr>"

definition table_row :: "string \<Rightarrow> td_cell list" where
  "table_row n =
     [\<lparr>a_tag = None, time_tag = Some ''2030-01-01 21:00''\<rparr>,
      \<lparr>a_tag = Some (n, Some ''/contests/x''), time_tag = None\<rparr>,
      blank_cell, blank_cell, blank_cell]"

definition three_rows :: "td_cell list" where
  "three_rows = table_row '' ABC 1 '' @ table_row ''ABC 2'' @ table_row ''ABC 3''"

definition eight_thirty_one :: datetime where
  "eight_thirty_one = \<lparr>ordinal = 741000, hour = 8, minute = 31, second = 0, microsecond = 0\<rparr>"

definition last_day :: datetime where
  \<comment> \<open>9999-12-31 08:31\<close>
  "last_day = \<lparr>ordinal = 3652059, hour = 8, minute = 31, second = 0, microsecond = 0\<rparr>"

definition one_row_page :: atc_response where
  \<comment> \<open>a page whose upcoming table lists one contest: five cells\<close>
  "one_row_page = Atc_page (Some (Some (table_row ''ABC 1'')))"

definition three_held :: "ContestInfo list manager" where
  "three_held = held [(''ABC 1'', ''t1'', ''u1''), (''ABC 2'', ''t2'', ''u2''), (''ABC 3'', ''t3'', ''u3'')]"

definition broken_entry :: cf_contest where
  \<comment> \<open>an upcoming entry without a name\<close>
  "broken_entry = \<lparr>phase = Some ''BEFORE'', name = None, startTimeSeconds = Some 0, contest_id = Some 13\<rparr>"

section \<open>Properties of the configuration manager\<close>

lemma save_config_keeps_config: "config (snd (save_config w m)) = config m"
  by (simp add: save_config_def)

text \<open>
  Claim C10. \<open>toggle_auto_reminder\<close> always flips the enabled flag and returns the
  new value of the flag, whether or not the configuration file could be written; two
  consecutive calls give back the original configuration object, so the operation is an
  involution on the enabled flag.
\<close>

theorem toggle_auto_reminder_involution:
  "fst (toggle_auto_reminder w m) = (\<not> enable_auto_reminder (config m))
   \<and> enable_auto_reminder (config (snd (toggle_auto_reminder w m))) = fst (toggle_auto_reminder w m)
   \<and> config (snd (toggle_auto_reminder w' (snd (toggle_auto_reminder w m)))) = config m"
  by (simp add: toggle_auto_reminder_def save_config_def Let_def)

section \<open>Properties of the cache\<close>

lemma save_cache_lists [simp]:
  "cf (save_cache e s) = cf s" "nc (save_cache e s) = nc s" "atc (save_cache e s) = atc s"
  "requests (save_cache e s) = requests s" "slept (save_cache e s) = slept s"
  by (simp_all add: save_cache_def)

lemmas load_eval =
  init_manager_def load_cache_def load_handler_def dict_get_def cache_fresh_def
  float_fresh_def

lemma load_cache_swallows:
  "init_manager ops now Missing
     = Inr \<lparr>cf = PList [], nc = PList [], atc = PList [], cache = Missing,
            requests = 0, slept = []\<rparr>"
  "init_manager ops now Not_json
     = Inr \<lparr>cf = PList [], nc = PList [], atc = PList [], cache = Not_json,
            requests = 0, slept = []\<rparr>"
  "init_manager ops now (Parsed (PDict [(''timestamp'', PStr ''x'')]))
     = Inr \<lparr>cf = PList [], nc = PList [], atc = PList [],
            cache = Parsed (PDict [(''timestamp'', PStr ''x'')]), requests = 0, slept = []\<rparr>"
  by (simp_all add: load_eval)

text \<open>An integer timestamp too large for a double: the conversion raises, and nothing catches it.\<close>

lemma load_cache_overflow:
  "float_of_int ops i = None \<Longrightarrow>
   init_manager ops now (Parsed (PDict [(''timestamp'', PInt i)])) = Inl OverflowError"
  by (simp add: load_eval)

text \<open>
  Claim C4. The claim is that \<open>_load_cache\<close> returns with the three lists empty and
  never raises, whatever the state of the cache file: missing, unreadable or structurally
  invalid. The handler catches \<open>JSONDecodeError\<close>, \<open>KeyError\<close> and
  \<open>TypeError\<close> only. A file that holds JSON other than an object (here the empty
  array) makes \<open>cache_data.get\<close> raise \<open>AttributeError\<close>, and a file that
  cannot be opened raises \<open>OSError\<close>; both leave \<open>_load_cache\<close> and the
  constructor. An object with a fresh timestamp whose \<open>cf\<close> entry is a number is
  adopted as it is.
\<close>

theorem load_cache_lets_exceptions_escape:
  "init_manager ops now (Parsed (PList [])) = Inl AttributeError
   \<and> init_manager ops now (Unreadable OSError) = Inl OSError
   \<and> init_manager small_int_ops 1000 (Parsed (PDict [(''timestamp'', PInt 1000), (''cf'', PInt 5)]))
       = Inr \<lparr>cf = PInt 5, nc = PList [], atc = PList [],
              cache = Parsed (PDict [(''timestamp'', PInt 1000), (''cf'', PInt 5)]),
              requests = 0, slept = []\<rparr>"
  by (simp add: load_eval small_int_ops_def)



lemma load_after_save:
  "disk_writable e \<Longrightarrow>
   init_manager ops now (cache (save_cache e s))
     = Inr (if fsub ops now (time_time e) < 3600
            then \<lparr>cf = enc_contests (cf s), nc = enc_contests (nc s), atc = enc_contests (atc s),
                  cache = cache (save_cache e s), requests = 0, slept = []\<rparr>
            else \<lparr>cf = PList [], nc = PList [], atc = PList [],
                  cache = cache (save_cache e s), requests = 0, slept = []\<rparr>)"
  by (simp add: save_cache_def load_eval snapshot_def snapshot_at_def)

section \<open>Properties of the retry loop\<close>

lemma range_max_retries: "[0..<max_retries] = [0, 1, 2]"
  by (simp add: max_retries_def upt_rec)

lemma backoff_lists [simp]:
  "cf (backoff k s) = cf s" "nc (backoff k s) = nc s" "atc (backoff k s) = atc s"
  "requests (backoff k s) = requests s" "cache (backoff k s) = cache s"
  by (simp_all add: backoff_def asyncio_sleep_def)

lemma backoff_last [simp]: "backoff 2 s = s"
  by (simp add: backoff_def max_retries_def)

lemma backoff_eval:
  "backoff 0 s = asyncio_sleep 1 s" "backoff (Suc 0) s = asyncio_sleep 2 s"
  by (simp_all add: backoff_def max_retries_def)

text \<open>What neither the body nor the backoff changes, the loop does not change.\<close>

lemma retry_loop_frame:
  assumes "\<And>k s. f (snd (body k s)) = f s" and "\<And>k s. f (backoff k s) = f s"
  shows "f (snd (retry_loop body attempts s)) = f s"
proof (induction attempts arbitrary: s)
  case Nil
  show ?case by simp
next
  case (Cons k rest)
  obtain r s1 where b: "body k s = (r, s1)" by (cases "body k s")
  have s1: "f s1 = f s" using assms(1) [of k s] b by simp
  show ?case
    by (cases r) (simp_all add: b s1 Cons.IH assms(2))
qed

text \<open>A loop that fails ends with the state its last pass has left.\<close>

lemma retry_loop_failed_last:
  "retry_loop body (attempts @ [k]) s = (False, s') \<Longrightarrow>
     \<exists>s0 r s1. body k s0 = (r, s1) \<and> r \<noteq> Returned \<and> (s' = s1 \<or> s' = backoff k s1)"
proof (induction attempts arbitrary: s)
  case Nil
  obtain r s1 where b: "body k s = (r, s1)" by (cases "body k s")
  from Nil have "r \<noteq> Returned \<and> (s' = s1 \<or> s' = backoff k s1)"
    by (cases r) (auto simp: b)
  with b show ?case by blast
next
  case (Cons j rest)
  obtain r s1 where b: "body j s = (r, s1)" by (cases "body j s")
  from Cons.prems have "\<exists>s2. retry_loop body (rest @ [k]) s2 = (False, s')"
    by (cases r) (auto simp: b)
  then show ?case using Cons.IH by blast
qed

lemma failed_loop_last:
  assumes "retry_loop body [0..<max_retries] s = (False, s')"
  shows "\<exists>s0 r s1. body 2 s0 = (r, s1) \<and> r \<noteq> Returned \<and> s' = s1"
proof -
  have "retry_loop body ([0, 1] @ [2]) s = (False, s')"
    using assms by (simp add: range_max_retries)
  from retry_loop_failed_last [OF this] show ?thesis by auto
qed

text \<open>A loop that succeeds ends with the state of a pass that returned.\<close>

lemma retry_loop_success:
  "retry_loop body attempts s = (True, s') \<Longrightarrow>
     \<exists>k \<in> set attempts. \<exists>s0. body k s0 = (Returned, s')"
proof (induction attempts arbitrary: s)
  case Nil
  then show ?case by simp
next
  case (Cons j rest)
  obtain r s1 where b: "body j s = (r, s1)" by (cases "body j s")
  show ?case
  proof (cases "r = Returned")
    case True
    with Cons.prems b have "body j s = (Returned, s')" by simp
    then show ?thesis by auto
  next
    case False
    with Cons.prems have "\<exists>s2. retry_loop body rest s2 = (True, s')"
      by (cases r) (auto simp: b)
    then show ?thesis using Cons.IH by fastforce
  qed
qed

text \<open>Every pass issues one request, so a fetch issues at most three.\<close>

lemma retry_loop_requests:
  assumes "\<And>k s. requests (snd (body k s)) = requests s + 1"
  shows "requests (snd (retry_loop body attempts s)) \<le> requests s + length attempts"
proof (induction attempts arbitrary: s)
  case Nil
  show ?case by simp
next
  case (Cons k rest)
  obtain r s1 where b: "body k s = (r, s1)" by (cases "body k s")
  have s1: "requests s1 = requests s + 1" using assms [of k s] b by simp
  have "requests (snd (retry_loop body rest s1)) \<le> requests s1 + length rest"
    "requests (snd (retry_loop body rest (backoff k s1))) \<le> requests (backoff k s1) + length rest"
    by (rule Cons.IH)+
  then show ?case
    by (cases r) (simp_all add: b s1)
qed

text \<open>
  When the passes before \<open>k\<close> do not return and the pass \<open>k\<close> returns, the loop
  ends with that pass: it has made as many passes as there are attempts up to \<open>k\<close>.
\<close>

lemma retry_loop_returns_at:
  assumes "\<And>j s0. j \<in> set before \<Longrightarrow> fst (body j s0) \<noteq> Returned"
    and "\<And>s0. fst (body k s0) = Returned"
    and "\<And>j s0. requests (snd (body j s0)) = requests s0 + 1"
  shows "\<exists>s0. retry_loop body (before @ k # rest) s = (True, snd (body k s0))
           \<and> requests s0 = requests s + length before"
  using assms(1)
proof (induction before arbitrary: s)
  case Nil
  obtain r s1 where b: "body k s = (r, s1)" by (cases "body k s")
  with assms(2) [of s] have "r = Returned" by simp
  with b have "retry_loop body ([] @ k # rest) s = (True, snd (body k s))" by simp
  then show ?case by auto
next
  case (Cons j before)
  obtain r s1 where b: "body j s = (r, s1)" by (cases "body j s")
  have nr: "r \<noteq> Returned" using Cons.prems [of j s] b by simp
  have s1: "requests s1 = requests s + 1" using assms(3) [of j s] b by simp
  have ih: "\<exists>s0. retry_loop body (before @ k # rest) s2 = (True, snd (body k s0))
      \<and> requests s0 = requests s2 + length before" for s2
    by (rule Cons.IH) (simp add: Cons.prems)
  from ih [of s1] ih [of "backoff j s1"] nr show ?case
    by (cases r) (auto simp: b s1)
qed

text \<open>When no pass returns, the loop fails after a pass for every attempt.\<close>

lemma retry_loop_all_fail:
  assumes "\<And>j s0. j \<in> set attempts \<Longrightarrow> fst (body j s0) \<noteq> Returned"
    and "\<And>j s0. requests (snd (body j s0)) = requests s0 + 1"
  shows "fst (retry_loop body attempts s) = False
           \<and> requests (snd (retry_loop body attempts s)) = requests s + length attempts"
  using assms(1)
proof (induction attempts arbitrary: s)
  case Nil
  show ?case by simp
next
  case (Cons j rest)
  obtain r s1 where b: "body j s = (r, s1)" by (cases "body j s")
  have nr: "r \<noteq> Returned" using Cons.prems [of j s] b by simp
  have s1: "requests s1 = requests s + 1" using assms(2) [of j s] b by simp
  have ih: "fst (retry_loop body rest s2) = False
      \<and> requests (snd (retry_loop body rest s2)) = requests s2 + length rest" for s2
    by (rule Cons.IH) (simp add: Cons.prems)
  from ih [of s1] ih [of "backoff j s1"] nr show ?case
    by (cases r) (auto simp: b s1)
qed

lemma range_split: "k < max_retries \<Longrightarrow> [0..<max_retries] = [0..<k] @ k # [Suc k..<max_retries]"
  by (metis le_add1 le_add_same_cancel1 less_imp_add_positive upt_add_eq_append upt_conv_Cons)

section \<open>Properties of the fetch functions\<close>

lemma held_sel:
  "cf (held xs) = xs" "nc (held xs) = xs" "atc (held xs) = xs"
  "requests (held xs) = 0" "slept (held xs) = []" "cache (held xs) = Missing"
  by (simp_all add: held_def)

lemma str_int_12: "str_int 12 = ''12''"
  by code_simp

lemmas fetch_eval =
  get_data_cf_def get_data_nc_def get_data_atc_def range_max_retries
  cf_attempt_def nc_attempt_def atc_attempt_def held_def backoff_eval asyncio_sleep_def
  save_cache_def example_env_def

subsection \<open>What a fetch leaves of the lists\<close>

lemma cf_attempt_frame:
  "nc (snd (cf_attempt e r s)) = nc s" "atc (snd (cf_attempt e r s)) = atc s"
  by (auto simp: cf_attempt_def Let_def split: cf_response.splits option.splits prod.splits)

lemma nc_attempt_frame:
  "cf (snd (nc_attempt e r s)) = cf s" "atc (snd (nc_attempt e r s)) = atc s"
  by (auto simp: nc_attempt_def Let_def split: nc_response.splits option.splits prod.splits)

lemma atc_attempt_frame:
  "cf (snd (atc_attempt e r s)) = cf s" "nc (snd (atc_attempt e r s)) = nc s"
  by (auto simp: atc_attempt_def Let_def split: atc_response.splits option.splits sum.splits)

lemma cf_attempt_rejected:
  "cf_rejected r \<Longrightarrow> cf_attempt e r s = (x, s1) \<Longrightarrow> cf s1 = []"
  by (auto simp: cf_attempt_def cf_rejected_def Let_def
      split: cf_response.splits option.splits if_splits)

lemma nc_attempt_rejected:
  "nc_rejected (snd r) \<Longrightarrow> nc_attempt e r s = (x, s1) \<Longrightarrow> nc s1 = []"
  by (auto simp: nc_attempt_def nc_rejected_def Let_def
      split: nc_response.splits option.splits if_splits)

lemma atc_attempt_not_returned:
  "atc_attempt e r s = (x, s1) \<Longrightarrow> x \<noteq> Returned \<Longrightarrow> atc s1 = []"
  by (auto simp: atc_attempt_def Let_def
      split: atc_response.splits option.splits sum.splits if_splits)

lemma atc_attempt_returned:
  "atc_attempt e r s0 = (Returned, s') \<Longrightarrow> atc s' \<noteq> [] \<and> length (atc s') \<le> 2"
  by (auto simp: atc_attempt_def Let_def
      split: atc_response.splits option.splits sum.splits if_splits)

lemma get_data_cf_frame:
  "nc (snd (get_data_cf e force net s)) = nc s" "atc (snd (get_data_cf e force net s)) = atc s"
  by (simp_all add: get_data_cf_def retry_loop_frame cf_attempt_frame)

lemma get_data_nc_frame:
  "cf (snd (get_data_nc e force net s)) = cf s" "atc (snd (get_data_nc e force net s)) = atc s"
  by (simp_all add: get_data_nc_def retry_loop_frame nc_attempt_frame)

lemma get_data_atc_frame:
  "cf (snd (get_data_atc e force net s)) = cf s" "nc (snd (get_data_atc e force net s)) = nc s"
  by (simp_all add: get_data_atc_def retry_loop_frame atc_attempt_frame)

lemma get_data_cf_failed:
  assumes "fst (get_data_cf e force net s) = False" and "cf_rejected (net 2)"
  shows "cf (snd (get_data_cf e force net s)) = []"
proof -
  obtain s' where r: "retry_loop (\<lambda>k. cf_attempt e (net k)) [0..<max_retries] s = (False, s')"
    and g: "get_data_cf e force net s = (False, s')"
    using assms(1) by (cases "retry_loop (\<lambda>k. cf_attempt e (net k)) [0..<max_retries] s")
      (auto simp: get_data_cf_def split: if_splits)
  from failed_loop_last [OF r] obtain s0 x where "cf_attempt e (net 2) s0 = (x, s')" by auto
  from cf_attempt_rejected [OF assms(2) this] g show ?thesis by simp
qed

lemma get_data_nc_failed:
  assumes "fst (get_data_nc e force net s) = False" and "nc_rejected (snd (net 2))"
  shows "nc (snd (get_data_nc e force net s)) = []"
proof -
  obtain s' where r: "retry_loop (\<lambda>k. nc_attempt e (net k)) [0..<max_retries] s = (False, s')"
    and g: "get_data_nc e force net s = (False, s')"
    using assms(1) by (cases "retry_loop (\<lambda>k. nc_attempt e (net k)) [0..<max_retries] s")
      (auto simp: get_data_nc_def split: if_splits)
  from failed_loop_last [OF r] obtain s0 x where "nc_attempt e (net 2) s0 = (x, s')" by auto
  from nc_attempt_rejected [OF assms(2) this] g show ?thesis by simp
qed

lemma get_data_atc_failed:
  assumes "fst (get_data_atc e force net s) = False"
  shows "atc (snd (get_data_atc e force net s)) = []"
proof -
  obtain s' where r: "retry_loop (\<lambda>k. atc_attempt e (net k)) [0..<max_retries] s = (False, s')"
    and g: "get_data_atc e force net s = (False, s')"
    using assms(1) by (cases "retry_loop (\<lambda>k. atc_attempt e (net k)) [0..<max_retries] s")
      (auto simp: get_data_atc_def split: if_splits)
  from failed_loop_last [OF r] obtain s0 x where
    "atc_attempt e (net 2) s0 = (x, s')" "x \<noteq> Returned" by auto
  from atc_attempt_not_returned [OF this] g show ?thesis by simp
qed

lemma get_data_atc_success_nonempty:
  assumes "fst (get_data_atc e force net s)"
  shows "atc (snd (get_data_atc e force net s)) \<noteq> []"
proof (cases "\<not> force \<and> atc s \<noteq> []")
  case True
  then show ?thesis by (simp add: get_data_atc_def)
next
  case False
  obtain s' where g: "get_data_atc e force net s = (True, s')"
    using assms by (cases "get_data_atc e force net s") auto
  with False have "retry_loop (\<lambda>k. atc_attempt e (net k)) [0..<max_retries] s = (True, s')"
    by (auto simp: get_data_atc_def)
  from retry_loop_success [OF this] obtain k s0 where
    "atc_attempt e (net k) s0 = (Returned, s')" by auto
  from atc_attempt_returned [OF this] g show ?thesis by simp
qed

text \<open>
  Every attempt clears the list first: what an attempt leaves in the list of its source,
  and how it ends, does not depend on the manager it starts from.
\<close>

lemma cf_attempt_independent:
  "cf (snd (cf_attempt e r s)) = cf (snd (cf_attempt e r s0))"
  "fst (cf_attempt e r s) = fst (cf_attempt e r s0)"
  by (auto simp: cf_attempt_def Let_def split: cf_response.splits option.splits prod.splits)

lemma nc_attempt_independent:
  "nc (snd (nc_attempt e r s)) = nc (snd (nc_attempt e r s0))"
  "fst (nc_attempt e r s) = fst (nc_attempt e r s0)"
  by (auto simp: nc_attempt_def Let_def split: nc_response.splits option.splits prod.splits)

lemma atc_attempt_independent:
  "fst (atc_attempt e r s) = fst (atc_attempt e r s0)"
  by (auto simp: atc_attempt_def Let_def
      split: atc_response.splits option.splits sum.splits)

lemma get_data_cf_failed_last:
  assumes "fst (get_data_cf e force net s) = False"
  shows "cf (snd (get_data_cf e force net s)) = cf (snd (cf_attempt e (net 2) s0))"
proof -
  obtain s' where r: "retry_loop (\<lambda>k. cf_attempt e (net k)) [0..<max_retries] s = (False, s')"
    and g: "get_data_cf e force net s = (False, s')"
    using assms by (cases "retry_loop (\<lambda>k. cf_attempt e (net k)) [0..<max_retries] s")
      (auto simp: get_data_cf_def split: if_splits)
  from failed_loop_last [OF r] obtain s1 x where "cf_attempt e (net 2) s1 = (x, s')" by auto
  then have "cf s' = cf (snd (cf_attempt e (net 2) s1))" by simp
  with g show ?thesis by (simp add: cf_attempt_independent(1) [of e "net 2" s1 s0])
qed

lemma get_data_nc_failed_last:
  assumes "fst (get_data_nc e force net s) = False"
  shows "nc (snd (get_data_nc e force net s)) = nc (snd (nc_attempt e (net 2) s0))"
proof -
  obtain s' where r: "retry_loop (\<lambda>k. nc_attempt e (net k)) [0..<max_retries] s = (False, s')"
    and g: "get_data_nc e force net s = (False, s')"
    using assms by (cases "retry_loop (\<lambda>k. nc_attempt e (net k)) [0..<max_retries] s")
      (auto simp: get_data_nc_def split: if_splits)
  from failed_loop_last [OF r] obtain s1 x where "nc_attempt e (net 2) s1 = (x, s')" by auto
  then have "nc s' = nc (snd (nc_attempt e (net 2) s1))" by simp
  with g show ?thesis by (simp add: nc_attempt_independent(1) [of e "net 2" s1 s0])
qed

text \<open>
  Claim C1, as stated: a fetch that fails leaves the list of its source as it was. It
  does not: a forced refresh of Source A that times out three times, on a manager that
  holds one contest, fails and leaves the list empty.
\<close>

theorem failed_forced_refresh_counterexample:
  "fst (get_data_cf example_env True (\<lambda>k. Cf_raises TimeoutException)
          (held [(''Round 1'', ''2030-01-01 00:00'', ''u'')])) = False
   \<and> cf (snd (get_data_cf example_env True (\<lambda>k. Cf_raises TimeoutException)
          (held [(''Round 1'', ''2030-01-01 00:00'', ''u'')])))
       \<noteq> cf (held [(''Round 1'', ''2030-01-01 00:00'', ''u'')])"
  by (simp add: fetch_eval)

text \<open>
  Claim C1, amended. A fetch that fails never touches the lists of the other two
  sources, and it keeps nothing of the list its own source held: every attempt clears
  that list first, so after a failed fetch the list is what the third attempt, started
  from any manager whatever, leaves in it. That is the empty list for Source C, and the
  empty list for Source A and Source B whenever the third attempt is rejected before its
  loop over the contests (an exception, or a status that is not \<open>OK\<close>).
\<close>

theorem failed_fetch_discards_own_list:
  "(fst (get_data_cf e force net_cf s) = False \<longrightarrow>
      nc (snd (get_data_cf e force net_cf s)) = nc s \<and>
      atc (snd (get_data_cf e force net_cf s)) = atc s \<and>
      cf (snd (get_data_cf e force net_cf s)) = cf (snd (cf_attempt e (net_cf 2) s0)) \<and>
      (cf_rejected (net_cf 2) \<longrightarrow> cf (snd (get_data_cf e force net_cf s)) = []))
   \<and> (fst (get_data_nc e force net_nc s) = False \<longrightarrow>
      cf (snd (get_data_nc e force net_nc s)) = cf s \<and>
      atc (snd (get_data_nc e force net_nc s)) = atc s \<and>
      nc (snd (get_data_nc e force net_nc s)) = nc (snd (nc_attempt e (net_nc 2) s0)) \<and>
      (nc_rejected (snd (net_nc 2)) \<longrightarrow> nc (snd (get_data_nc e force net_nc s)) = []))
   \<and> (fst (get_data_atc e force net_atc s) = False \<longrightarrow>
      cf (snd (get_data_atc e force net_atc s)) = cf s \<and>
      nc (snd (get_data_atc e force net_atc s)) = nc s \<and>
      atc (snd (get_data_atc e force net_atc s)) = [])"
  using get_data_cf_failed [of e force net_cf s] get_data_nc_failed [of e force net_nc s]
    get_data_atc_failed [of e force net_atc s]
    get_data_cf_failed_last [of e force net_cf s s0]
    get_data_nc_failed_last [of e force net_nc s s0]
  by (simp add: get_data_cf_frame get_data_nc_frame get_data_atc_frame)

lemma three_timeouts:
  "get_data_cf example_env True (\<lambda>k. Cf_raises TimeoutException) (held [(''R'', ''t'', ''u'')])
     = (False, \<lparr>cf = [], nc = [(''R'', ''t'', ''u'')], atc = [(''R'', ''t'', ''u'')],
                cache = Missing, requests = 3, slept = [1, 2]\<rparr>)"
  "get_data_nc example_env True (\<lambda>k. (0, Nc_raises TimeoutException)) (held [(''R'', ''t'', ''u'')])
     = (False, \<lparr>cf = [(''R'', ''t'', ''u'')], nc = [], atc = [(''R'', ''t'', ''u'')],
                cache = Missing, requests = 3, slept = [1, 2]\<rparr>)"
  "get_data_atc example_env True (\<lambda>k. Atc_raises TimeoutException) (held [(''R'', ''t'', ''u'')])
     = (False, \<lparr>cf = [(''R'', ''t'', ''u'')], nc = [(''R'', ''t'', ''u'')], atc = [],
                cache = Missing, requests = 3, slept = [1, 2]\<rparr>)"
  by (simp_all add: fetch_eval)

theorem failed_fetch_discards_own_list_witness:
  "fst (get_data_cf example_env True (\<lambda>k. Cf_raises TimeoutException) (held [(''R'', ''t'', ''u'')])) = False
   \<and> cf_rejected (Cf_raises TimeoutException)
   \<and> cf (snd (get_data_cf example_env True (\<lambda>k. Cf_raises TimeoutException) (held [(''R'', ''t'', ''u'')]))) = []
   \<and> nc (snd (get_data_cf example_env True (\<lambda>k. Cf_raises TimeoutException) (held [(''R'', ''t'', ''u'')])))
       = [(''R'', ''t'', ''u'')]
   \<and> fst (get_data_nc example_env True (\<lambda>k. (0, Nc_raises TimeoutException)) (held [(''R'', ''t'', ''u'')])) = False
   \<and> nc_rejected (Nc_raises TimeoutException)
   \<and> nc (snd (get_data_nc example_env True (\<lambda>k. (0, Nc_raises TimeoutException)) (held [(''R'', ''t'', ''u'')]))) = []
   \<and> fst (get_data_atc example_env True (\<lambda>k. Atc_raises TimeoutException) (held [(''R'', ''t'', ''u'')])) = False
   \<and> atc (snd (get_data_atc example_env True (\<lambda>k. Atc_raises TimeoutException) (held [(''R'', ''t'', ''u'')]))) = []"
  using failed_fetch_discards_own_list [of example_env True "\<lambda>k. Cf_raises TimeoutException"
      "held [(''R'', ''t'', ''u'')]" "held []" "\<lambda>k. (0, Nc_raises TimeoutException)"
      "\<lambda>k. Atc_raises TimeoutException"]
  by (simp add: three_timeouts cf_rejected_def nc_rejected_def)

text \<open>
  A third attempt that fails inside its loop leaves what it has appended: here every
  answer holds a good entry and then one without a name, and the failed forced refresh
  leaves the record of the good entry.
\<close>

lemma failed_fetch_keeps_partial_records:
  "get_data_cf example_env True
     (\<lambda>k. Cf_json (Some ''OK'') (Some [entry ''BEFORE'' ''Round B'' 12, broken_entry]))
     (held [(''Round 1'', ''2030-01-01 00:00'', ''u'')])
   = (False, \<lparr>cf = [(''Round B'', ''2030-01-01 00:00'', ''https://codeforces.com/contest/12'')],
              nc = [(''Round 1'', ''2030-01-01 00:00'', ''u'')],
              atc = [(''Round 1'', ''2030-01-01 00:00'', ''u'')],
              cache = Missing, requests = 3, slept = [1, 2]\<rparr>)"
  by (simp add: fetch_eval entry_def broken_entry_def str_int_12)

subsection \<open>Attempts and waits\<close>

lemma cf_attempt_requests: "requests (snd (cf_attempt e r s)) = requests s + 1"
  by (auto simp: cf_attempt_def Let_def split: cf_response.splits option.splits prod.splits)

lemma get_data_cf_at_most_three_requests:
  "requests (snd (get_data_cf e force net s)) \<le> requests s + 3"
proof (cases "\<not> force \<and> cf s \<noteq> []")
  case True
  then show ?thesis by (simp add: get_data_cf_def)
next
  case False
  have "requests (snd (retry_loop (\<lambda>k. cf_attempt e (net k)) [0, 1, 2] s)) \<le> requests s + length [0, 1, 2::nat]"
    by (rule retry_loop_requests) (rule cf_attempt_requests)
  with False show ?thesis
    by (simp add: get_data_cf_def range_max_retries)
qed

text \<open>Three attempts that end in an exception: waits of 1 s and 2 s, none after the third.\<close>

lemma exceptions_back_off:
  "get_data_cf example_env False (\<lambda>k. Cf_raises TimeoutException) (held [])
     = (False, (held [])\<lparr>requests := 3, slept := [1, 2]\<rparr>)"
  by (simp add: fetch_eval)

text \<open>
  Claim C6. The claim is that a fetch issues at most three requests, waits
  \<open>2 ^ attempt\<close> seconds between consecutive failed attempts (1 s, then 2 s) and
  does not wait after the third. The bound and the waits after exceptions hold (the two
  lemmas above). An attempt that the API status rejects ends in \<open>continue\<close>, which
  jumps over the backoff: with the status \<open>FAILED\<close> on every attempt, the fetch
  issues its three requests with no wait between them and fails.
\<close>

theorem rejected_status_retries_without_backoff:
  "get_data_cf example_env False (\<lambda>k. Cf_json (Some ''FAILED'') None) (held [])
     = (False, (held [])\<lparr>requests := 3\<rparr>)
   \<and> slept (snd (get_data_cf example_env False (\<lambda>k. Cf_json (Some ''FAILED'') None) (held []))) = []"
  by (simp add: fetch_eval)

subsection \<open>A fetch without records\<close>

lemma nc_attempt_requests: "requests (snd (nc_attempt e r s)) = requests s + 1"
  by (auto simp: nc_attempt_def Let_def split: nc_response.splits option.splits prod.splits)

lemma atc_attempt_requests: "requests (snd (atc_attempt e r s)) = requests s + 1"
  by (auto simp: atc_attempt_def Let_def
      split: atc_response.splits option.splits sum.splits)

lemma cf_attempt_empty:
  "cf_collect e entries [] = (None, []) \<Longrightarrow>
   cf_attempt e (Cf_json (Some ''OK'') (Some entries)) s0
     = (Returned, save_cache e (s0\<lparr>requests := requests s0 + 1, cf := []\<rparr>))"
  by (simp add: cf_attempt_def)

lemma nc_attempt_empty:
  "nc_collect e ts (case data of None \<Rightarrow> [] | Some d \<Rightarrow> d) [] = (None, []) \<Longrightarrow>
   nc_attempt e (ts, Nc_json (Some ''OK'') (Some 0) data) s0
     = (Returned, save_cache e (s0\<lparr>requests := requests s0 + 1, nc := []\<rparr>))"
  by (simp add: nc_attempt_def)

lemma atc_attempt_without_record:
  "atc_without_record e r \<Longrightarrow> fst (atc_attempt e r s0) \<noteq> Returned"
  by (auto simp: atc_without_record_def atc_attempt_def Let_def
      split: atc_response.splits option.splits)

lemma get_data_cf_empty_success:
  assumes k: "k < max_retries" and going: "force \<or> cf s = []"
    and before: "\<forall>j<k. fst (cf_attempt e (net j) s) \<noteq> Returned"
    and answer: "net k = Cf_json (Some ''OK'') (Some entries)"
    and empty: "cf_collect e entries [] = (None, [])"
  shows "fst (get_data_cf e force net s) = True
    \<and> cf (snd (get_data_cf e force net s)) = []
    \<and> requests (snd (get_data_cf e force net s)) = requests s + k + 1"
proof -
  let ?body = "\<lambda>k. cf_attempt e (net k)"
  have b: "fst (?body j s0) \<noteq> Returned" if "j \<in> set [0..<k]" for j s0
    using that before cf_attempt_independent(2) [of e "net j" s0 s] by simp
  have r: "fst (?body k s0) = Returned" for s0
    by (simp add: answer cf_attempt_empty [OF empty])
  from retry_loop_returns_at [of "[0..<k]" ?body k, OF b r cf_attempt_requests]
  obtain s0 where l: "retry_loop ?body ([0..<k] @ k # [Suc k..<max_retries]) s
        = (True, snd (?body k s0))"
    and q: "requests s0 = requests s + length [0..<k]"
    by blast
  from l going have "get_data_cf e force net s = (True, snd (?body k s0))"
    by (auto simp: get_data_cf_def range_split [OF k])
  with q show ?thesis
    by (simp add: answer cf_attempt_empty [OF empty])
qed

lemma get_data_nc_empty_success:
  assumes k: "k < max_retries" and going: "force \<or> nc s = []"
    and before: "\<forall>j<k. fst (nc_attempt e (net j) s) \<noteq> Returned"
    and answer: "net k = (ts, Nc_json (Some ''OK'') (Some 0) data)"
    and empty: "nc_collect e ts (case data of None \<Rightarrow> [] | Some d \<Rightarrow> d) [] = (None, [])"
  shows "fst (get_data_nc e force net s) = True
    \<and> nc (snd (get_data_nc e force net s)) = []
    \<and> requests (snd (get_data_nc e force net s)) = requests s + k + 1"
proof -
  let ?body = "\<lambda>k. nc_attempt e (net k)"
  have b: "fst (?body j s0) \<noteq> Returned" if "j \<in> set [0..<k]" for j s0
    using that before nc_attempt_independent(2) [of e "net j" s0 s] by simp
  have r: "fst (?body k s0) = Returned" for s0
    by (simp add: answer nc_attempt_empty [OF empty])
  from retry_loop_returns_at [of "[0..<k]" ?body k, OF b r nc_attempt_requests]
  obtain s0 where l: "retry_loop ?body ([0..<k] @ k # [Suc k..<max_retries]) s
        = (True, snd (?body k s0))"
    and q: "requests s0 = requests s + length [0..<k]"
    by blast
  from l going have "get_data_nc e force net s = (True, snd (?body k s0))"
    by (auto simp: get_data_nc_def range_split [OF k])
  with q show ?thesis
    by (simp add: answer nc_attempt_empty [OF empty])
qed

lemma get_data_atc_without_record:
  assumes going: "force \<or> atc s = []"
    and none: "\<forall>k<max_retries. atc_without_record e (net k)"
  shows "fst (get_data_atc e force net s) = False
    \<and> atc (snd (get_data_atc e force net s)) = []
    \<and> requests (snd (get_data_atc e force net s)) = requests s + 3"
proof -
  let ?body = "\<lambda>k. atc_attempt e (net k)"
  have b: "fst (?body j s0) \<noteq> Returned" if "j \<in> set [0..<max_retries]" for j s0
    using that none by (simp add: atc_attempt_without_record)
  from retry_loop_all_fail [of "[0..<max_retries]" ?body, OF b atc_attempt_requests, of s] going
  have f: "fst (get_data_atc e force net s) = False"
    and q: "requests (snd (get_data_atc e force net s)) = requests s + 3"
    by (auto simp: get_data_atc_def max_retries_def)
  from f q get_data_atc_failed [OF f] show ?thesis by simp
qed

text \<open>
  Claim C3, as stated: for every source, an attempt that meets no error and yields no
  record is a success with an empty list. Source C is otherwise: a page whose upcoming
  table has a body without cells raises nothing and yields nothing, and the fetch fails
  after three requests.
\<close>

theorem empty_table_counterexample:
  "fst (get_data_atc example_env False (\<lambda>k. Atc_page (Some (Some []))) (held [])) = False
   \<and> requests (snd (get_data_atc example_env False (\<lambda>k. Atc_page (Some (Some []))) (held []))) = 3"
  by (simp add: fetch_eval)

text \<open>
  Claim C3, amended. For Source A and Source B, an attempt whose answer is accepted and
  whose loop ends without an exception and without a record makes the fetch return true
  with an empty list, and no further attempt is made: when the attempts before the
  attempt \<open>k\<close> do not return, the fetch has issued \<open>k + 1\<close> requests. For
  Source C an answer that raises nothing and gives no contest (no table, no table body,
  fewer than ten cells, or two rows that are both skipped) is a failed attempt: when the
  three answers are such, the fetch returns false after three requests and holds an
  empty list; and a Source C fetch never returns true with an empty list.
\<close>

theorem empty_result_is_success_for_sources_A_B:
  "(k < max_retries \<longrightarrow> force \<or> cf s = [] \<longrightarrow>
      (\<forall>j<k. fst (cf_attempt e (net_cf j) s) \<noteq> Returned) \<longrightarrow>
      net_cf k = Cf_json (Some ''OK'') (Some entries) \<longrightarrow>
      cf_collect e entries [] = (None, []) \<longrightarrow>
      fst (get_data_cf e force net_cf s) = True
      \<and> cf (snd (get_data_cf e force net_cf s)) = []
      \<and> requests (snd (get_data_cf e force net_cf s)) = requests s + k + 1)
   \<and> (k' < max_retries \<longrightarrow> force \<or> nc s = [] \<longrightarrow>
      (\<forall>j<k'. fst (nc_attempt e (net_nc j) s) \<noteq> Returned) \<longrightarrow>
      net_nc k' = (ts, Nc_json (Some ''OK'') (Some 0) data) \<longrightarrow>
      nc_collect e ts (case data of None \<Rightarrow> [] | Some d \<Rightarrow> d) [] = (None, []) \<longrightarrow>
      fst (get_data_nc e force net_nc s) = True
      \<and> nc (snd (get_data_nc e force net_nc s)) = []
      \<and> requests (snd (get_data_nc e force net_nc s)) = requests s + k' + 1)
   \<and> (force \<or> atc s = [] \<longrightarrow> (\<forall>k<max_retries. atc_without_record e (net_atc k)) \<longrightarrow>
      fst (get_data_atc e force net_atc s) = False
      \<and> atc (snd (get_data_atc e force net_atc s)) = []
      \<and> requests (snd (get_data_atc e force net_atc s)) = requests s + 3)
   \<and> (fst (get_data_atc e force net_atc s) \<longrightarrow> atc (snd (get_data_atc e force net_atc s)) \<noteq> [])"
proof (intro conjI impI)
  assume "k < max_retries" "force \<or> cf s = []"
    "\<forall>j<k. fst (cf_attempt e (net_cf j) s) \<noteq> Returned"
    "net_cf k = Cf_json (Some ''OK'') (Some entries)" "cf_collect e entries [] = (None, [])"
  from get_data_cf_empty_success [OF this]
  show "fst (get_data_cf e force net_cf s) = True"
    "cf (snd (get_data_cf e force net_cf s)) = []"
    "requests (snd (get_data_cf e force net_cf s)) = requests s + k + 1"
    by simp_all
next
  assume "k' < max_retries" "force \<or> nc s = []"
    "\<forall>j<k'. fst (nc_attempt e (net_nc j) s) \<noteq> Returned"
    "net_nc k' = (ts, Nc_json (Some ''OK'') (Some 0) data)"
    "nc_collect e ts (case data of None \<Rightarrow> [] | Some d \<Rightarrow> d) [] = (None, [])"
  from get_data_nc_empty_success [OF this]
  show "fst (get_data_nc e force net_nc s) = True"
    "nc (snd (get_data_nc e force net_nc s)) = []"
    "requests (snd (get_data_nc e force net_nc s)) = requests s + k' + 1"
    by simp_all
next
  assume "force \<or> atc s = []" "\<forall>k<max_retries. atc_without_record e (net_atc k)"
  from get_data_atc_without_record [OF this]
  show "fst (get_data_atc e force net_atc s) = False"
    "atc (snd (get_data_atc e force net_atc s)) = []"
    "requests (snd (get_data_atc e force net_atc s)) = requests s + 3"
    by simp_all
next
  assume "fst (get_data_atc e force net_atc s)"
  then show "atc (snd (get_data_atc e force net_atc s)) \<noteq> []"
    by (rule get_data_atc_success_nonempty)
qed

lemma second_attempt_empty:
  "get_data_cf example_env False
     (\<lambda>k. if k = 0 then Cf_raises TimeoutException else Cf_json (Some ''OK'') (Some []))
     (held [])
   = (True, \<lparr>cf = [], nc = [], atc = [], cache = Missing, requests = 2, slept = [1]\<rparr>)"
  "get_data_nc example_env False
     (\<lambda>k. (5000, Nc_json (Some ''OK'') (Some 0) (Some [past_contest]))) (held [])
   = (True, \<lparr>cf = [], nc = [], atc = [], cache = Missing, requests = 1, slept = []\<rparr>)"
  "get_data_atc example_env False (\<lambda>k. one_row_page) (held [])
   = (False, \<lparr>cf = [], nc = [], atc = [], cache = Missing, requests = 3, slept = []\<rparr>)"
  by (simp_all add: fetch_eval past_contest_def one_row_page_def table_row_def)

lemma one_row_page_without_record: "atc_without_record example_env one_row_page"
  by (simp add: atc_without_record_def one_row_page_def table_row_def)

theorem empty_result_is_success_witness:
  "(1::nat) < max_retries \<and> (False \<or> cf (held []) = [])
   \<and> (\<forall>j<(1::nat). fst (cf_attempt example_env
          (if j = 0 then Cf_raises TimeoutException else Cf_json (Some ''OK'') (Some [])) (held []))
        \<noteq> Returned) = True
   \<and> cf_collect example_env [] [] = (None, [])
   \<and> get_data_cf example_env False
        (\<lambda>k. if k = 0 then Cf_raises TimeoutException else Cf_json (Some ''OK'') (Some []))
        (held [])
      = (True, \<lparr>cf = [], nc = [], atc = [], cache = Missing, requests = 2, slept = [1]\<rparr>)
   \<and> nc_collect example_env 5000 [past_contest] [] = (None, [])
   \<and> get_data_nc example_env False
        (\<lambda>k. (5000, Nc_json (Some ''OK'') (Some 0) (Some [past_contest]))) (held [])
      = (True, \<lparr>cf = [], nc = [], atc = [], cache = Missing, requests = 1, slept = []\<rparr>)
   \<and> atc_without_record example_env one_row_page
   \<and> get_data_atc example_env False (\<lambda>k. one_row_page) (held [])
      = (False, \<lparr>cf = [], nc = [], atc = [], cache = Missing, requests = 3, slept = []\<rparr>)
   \<and> requests (snd (get_data_cf example_env False
        (\<lambda>k. if k = 0 then Cf_raises TimeoutException else Cf_json (Some ''OK'') (Some []))
        (held []))) = requests (held []) + 1 + 1"
proof -
  have k: "(1::nat) < max_retries"
    by (simp add: max_retries_def)
  have going: "False \<or> cf (held []) = []"
    by (simp add: held_sel)
  have before: "\<forall>j<(1::nat). fst (cf_attempt example_env
      ((\<lambda>k. if k = 0 then Cf_raises TimeoutException else Cf_json (Some ''OK'') (Some [])) j) (held []))
        \<noteq> Returned"
    by (simp add: cf_attempt_def)
  have answer: "(\<lambda>k. if k = 0 then Cf_raises TimeoutException else Cf_json (Some ''OK'') (Some [])) (1::nat)
      = Cf_json (Some ''OK'') (Some [])"
    by simp
  have empty: "cf_collect example_env [] [] = (None, [])"
    by simp
  note used = empty_result_is_success_for_sources_A_B [of 1 False "held []" example_env
      "\<lambda>k. if k = 0 then Cf_raises TimeoutException else Cf_json (Some ''OK'') (Some [])" "[]",
      THEN conjunct1, THEN mp, OF k, THEN mp, OF going, THEN mp, OF before, THEN mp, OF answer,
      THEN mp, OF empty, THEN conjunct2, THEN conjunct2]
  have b': "(\<forall>j<(1::nat). fst (cf_attempt example_env
          (if j = 0 then Cf_raises TimeoutException else Cf_json (Some ''OK'') (Some [])) (held []))
        \<noteq> Returned) = True"
    using before by simp
  have past: "nc_collect example_env 5000 [past_contest] [] = (None, [])"
    by (simp add: past_contest_def)
  show ?thesis
    by (intro conjI)
      (rule k going b' empty second_attempt_empty past one_row_page_without_record used)+
qed

subsection \<open>Source A: the upcoming prefix, reversed\<close>

lemma cf_collect_prefix:
  "cf_collect e entries acc = (None, xs) \<Longrightarrow>
     \<exists>ys. those (map (cf_record e) (takeWhile upcoming entries)) = Some ys \<and> xs = acc @ ys"
proof (induction entries arbitrary: acc)
  case Nil
  then show ?case by simp
next
  case (Cons c rest)
  show ?case
  proof (cases "upcoming c")
    case False
    with Cons.prems show ?thesis
      by (auto simp: upcoming_def split: option.splits if_splits)
  next
    case True
    with Cons.prems obtain n t ct i where
      f: "name c = Some n" "startTimeSeconds c = Some t" "strftime_local e t = Some ct"
         "contest_id c = Some i"
      and r: "cf_collect e rest (acc @ [(n, ct, ''https://codeforces.com/contest/'' @ str_int i)])
                = (None, xs)"
      by (auto simp: upcoming_def split: option.splits if_splits)
    from Cons.IH [OF r] obtain ys where
      ys: "those (map (cf_record e) (takeWhile upcoming rest)) = Some ys"
          "xs = (acc @ [(n, ct, ''https://codeforces.com/contest/'' @ str_int i)]) @ ys"
      by blast
    have "cf_record e c = Some (n, ct, ''https://codeforces.com/contest/'' @ str_int i)"
      by (simp add: cf_record_def f)
    with True ys show ?thesis by simp
  qed
qed

lemma cf_attempt_returned:
  assumes "cf_attempt e r s0 = (Returned, s')"
  shows "\<exists>entries. r = Cf_json (Some ''OK'') (Some entries) \<and>
           those (map (cf_record e) (takeWhile upcoming entries)) = Some (rev (cf s'))"
proof -
  from assms obtain entries xs where
    r: "r = Cf_json (Some ''OK'') (Some entries)"
    and c: "cf_collect e entries [] = (None, xs)" and s': "cf s' = rev xs"
    by (auto simp: cf_attempt_def Let_def
        split: cf_response.splits option.splits if_splits prod.splits)
  from cf_collect_prefix [OF c] s' r show ?thesis by auto
qed

lemma cf_collect_complete:
  "those (map (cf_record e) (takeWhile upcoming entries)) = Some ys \<Longrightarrow>
   \<forall>c \<in> set (take 1 (dropWhile upcoming entries)). phase c \<noteq> None \<Longrightarrow>
   cf_collect e entries acc = (None, acc @ ys)"
proof (induction entries arbitrary: acc ys)
  case Nil
  then show ?case by simp
next
  case (Cons c rest)
  show ?case
  proof (cases "upcoming c")
    case False
    with Cons.prems show ?thesis
      by (auto simp: upcoming_def split: option.splits)
  next
    case True
    with Cons.prems obtain y ys' where
      y: "cf_record e c = Some y"
      and ys': "those (map (cf_record e) (takeWhile upcoming rest)) = Some ys'"
      and ys: "ys = y # ys'"
      by (auto split: option.splits)
    from True Cons.prems
    have p: "\<forall>c \<in> set (take 1 (dropWhile upcoming rest)). phase c \<noteq> None"
      by simp
    from y obtain n t ct i where
      f: "name c = Some n" "startTimeSeconds c = Some t" "strftime_local e t = Some ct"
         "contest_id c = Some i" "y = (n, ct, ''https://codeforces.com/contest/'' @ str_int i)"
      by (auto simp: cf_record_def split: option.splits)
    from Cons.IH [OF ys' p, of "acc @ [y]"] True f ys show ?thesis
      by (simp add: upcoming_def)
  qed
qed

lemma get_data_cf_first_attempt:
  assumes "force \<or> cf s = []" and "net 0 = Cf_json (Some ''OK'') (Some entries)"
    and "\<forall>c \<in> set (take 1 (dropWhile upcoming entries)). phase c \<noteq> None"
    and "those (map (cf_record e) (takeWhile upcoming entries)) = Some ys"
  shows "get_data_cf e force net s
           = (True, save_cache e (s\<lparr>requests := requests s + 1, cf := rev ys\<rparr>))"
proof -
  have "cf_collect e entries [] = (None, ys)"
    using cf_collect_complete [OF assms(4) assms(3), of "[]"] by simp
  with assms(1,2) show ?thesis
    by (auto simp: get_data_cf_def range_max_retries cf_attempt_def)
qed

lemma get_data_cf_success:
  assumes "force \<or> cf s = []" and "get_data_cf e force net s = (True, s')"
  shows "\<exists>k<max_retries. \<exists>entries. net k = Cf_json (Some ''OK'') (Some entries) \<and>
           those (map (cf_record e) (takeWhile upcoming entries)) = Some (rev (cf s'))"
proof -
  from assms have "retry_loop (\<lambda>k. cf_attempt e (net k)) [0..<max_retries] s = (True, s')"
    by (auto simp: get_data_cf_def)
  from retry_loop_success [OF this] obtain k s0 where
    k: "k < max_retries" and a: "cf_attempt e (net k) s0 = (Returned, s')"
    by auto
  from cf_attempt_returned [OF a] k show ?thesis by blast
qed

lemma str_int_eval: "str_int 12 = ''12''" "str_int 11 = ''11''"
  by code_simp+

lemma feed_prefix:
  "takeWhile upcoming feed = [entry ''BEFORE'' ''Round B'' 12, entry ''BEFORE'' ''Round A'' 11]"
  "those (map (cf_record example_env) (takeWhile upcoming feed))
     = Some [(''Round B'', ''2030-01-01 00:00'', ''https://codeforces.com/contest/12''),
             (''Round A'', ''2030-01-01 00:00'', ''https://codeforces.com/contest/11'')]"
  "\<forall>c \<in> set (take 1 (dropWhile upcoming feed)). phase c \<noteq> None"
  by (simp_all add: feed_def entry_def upcoming_def cf_record_def example_env_def str_int_eval)

text \<open>
  Claim C7. For every Source A result array, the fetch collects the entries from the
  front up to, and without, the first entry whose phase is not \<open>BEFORE\<close>, and holds
  the records of that prefix reversed. First: when the first attempt is accepted, every
  entry of the prefix has its fields and the entry that ends the prefix has a phase, the
  fetch returns true after one request with the reversed records of the prefix. Second:
  whenever a fetch that goes to the network returns true, the list it holds, read
  backwards, is the list of the records of such a prefix, for the result array of one
  of its attempts. For the phases \<open>BEFORE\<close>, \<open>BEFORE\<close>, \<open>CODING\<close> the first
  two entries are kept, the second one first.
\<close>

theorem cf_fetch_keeps_reversed_upcoming_prefix:
  "(force \<or> cf s = [] \<longrightarrow> net 0 = Cf_json (Some ''OK'') (Some entries) \<longrightarrow>
      (\<forall>c \<in> set (take 1 (dropWhile upcoming entries)). phase c \<noteq> None) \<longrightarrow>
      those (map (cf_record e) (takeWhile upcoming entries)) = Some ys \<longrightarrow>
      get_data_cf e force net s
        = (True, save_cache e (s\<lparr>requests := requests s + 1, cf := rev ys\<rparr>)))
   \<and> (force \<or> cf s = [] \<longrightarrow> get_data_cf e force net s = (True, s') \<longrightarrow>
      (\<exists>k<max_retries. \<exists>entries'. net k = Cf_json (Some ''OK'') (Some entries') \<and>
         those (map (cf_record e) (takeWhile upcoming entries')) = Some (rev (cf s'))))"
proof (intro conjI impI)
  assume "force \<or> cf s = []" "net 0 = Cf_json (Some ''OK'') (Some entries)"
    "\<forall>c \<in> set (take 1 (dropWhile upcoming entries)). phase c \<noteq> None"
    "those (map (cf_record e) (takeWhile upcoming entries)) = Some ys"
  then show "get_data_cf e force net s
      = (True, save_cache e (s\<lparr>requests := requests s + 1, cf := rev ys\<rparr>))"
    by (rule get_data_cf_first_attempt)
next
  assume "force \<or> cf s = []" "get_data_cf e force net s = (True, s')"
  then show "\<exists>k<max_retries. \<exists>entries'. net k = Cf_json (Some ''OK'') (Some entries') \<and>
         those (map (cf_record e) (takeWhile upcoming entries')) = Some (rev (cf s'))"
    by (rule get_data_cf_success)
qed


theorem cf_fetch_keeps_reversed_upcoming_prefix_witness:
  "(False \<or> cf (held []) = [])
   \<and> takeWhile upcoming feed = [entry ''BEFORE'' ''Round B'' 12, entry ''BEFORE'' ''Round A'' 11]
   \<and> those (map (cf_record example_env) (takeWhile upcoming feed))
       = Some [(''Round B'', ''2030-01-01 00:00'', ''https://codeforces.com/contest/12''),
               (''Round A'', ''2030-01-01 00:00'', ''https://codeforces.com/contest/11'')]
   \<and> get_data_cf example_env False (\<lambda>k. Cf_json (Some ''OK'') (Some feed)) (held [])
       = (True, save_cache example_env ((held [])\<lparr>requests := requests (held []) + 1,
            cf := rev [(''Round B'', ''2030-01-01 00:00'', ''https://codeforces.com/contest/12''),
                       (''Round A'', ''2030-01-01 00:00'', ''https://codeforces.com/contest/11'')]\<rparr>))
   \<and> cf (snd (get_data_cf example_env False (\<lambda>k. Cf_json (Some ''OK'') (Some feed)) (held [])))
       = [(''Round A'', ''2030-01-01 00:00'', ''https://codeforces.com/contest/11''),
          (''Round B'', ''2030-01-01 00:00'', ''https://codeforces.com/contest/12'')]"
proof -
  have h1: "False \<or> cf (held []) = []"
    by (simp add: held_sel)
  have h2: "(\<lambda>k. Cf_json (Some ''OK'') (Some feed)) (0::nat) = Cf_json (Some ''OK'') (Some feed)"
    by simp
  note fetched = cf_fetch_keeps_reversed_upcoming_prefix
    [of False "held []" "\<lambda>k. Cf_json (Some ''OK'') (Some feed)" feed example_env
      "[(''Round B'', ''2030-01-01 00:00'', ''https://codeforces.com/contest/12''),
        (''Round A'', ''2030-01-01 00:00'', ''https://codeforces.com/contest/11'')]",
     THEN conjunct1, THEN mp, OF h1, THEN mp, OF h2, THEN mp, OF feed_prefix(3),
     THEN mp, OF feed_prefix(2)]
  have held_list: "cf (snd (get_data_cf example_env False (\<lambda>k. Cf_json (Some ''OK'') (Some feed)) (held [])))
       = [(''Round A'', ''2030-01-01 00:00'', ''https://codeforces.com/contest/11''),
          (''Round B'', ''2030-01-01 00:00'', ''https://codeforces.com/contest/12'')]"
  proof -
    have "cf (snd (get_data_cf example_env False (\<lambda>k. Cf_json (Some ''OK'') (Some feed)) (held [])))
        = cf (snd (True, save_cache example_env ((held [])\<lparr>requests := requests (held []) + 1,
            cf := rev [(''Round B'', ''2030-01-01 00:00'', ''https://codeforces.com/contest/12''),
                       (''Round A'', ''2030-01-01 00:00'', ''https://codeforces.com/contest/11'')]\<rparr>)))"
      by (rule arg_cong [OF fetched])
    also have "\<dots> = [(''Round A'', ''2030-01-01 00:00'', ''https://codeforces.com/contest/11''),
          (''Round B'', ''2030-01-01 00:00'', ''https://codeforces.com/contest/12'')]"
      by simp
    finally show ?thesis .
  qed
  show ?thesis
    by (intro conjI) (rule h1 feed_prefix(1) feed_prefix(2) fetched held_list)+
qed

subsection \<open>Source C: at most two contests\<close>

lemma three_rows_fetch:
  "get_data_atc example_env False (\<lambda>k. Atc_page (Some (Some three_rows))) (held [])
     = (True, \<lparr>cf = [], nc = [],
               atc = [(''ABC 1'', ''2030-01-01 21:00'', ''https://atcoder.jp/contests/x''),
                      (''ABC 2'', ''2030-01-01 21:00'', ''https://atcoder.jp/contests/x'')],
               cache = Missing, requests = 1, slept = []\<rparr>)"
  by code_simp

lemma three_rows_length: "length three_rows = 15"
  by (simp add: three_rows_def table_row_def)

text \<open>
  Claim C8, as stated: after every successful Source C fetch the list holds at most two
  contests. A call without \<open>force_refresh\<close> on a list that is not empty returns
  true at once and leaves the list as it is; a manager that holds three contests (the
  constructor adopts whatever list a fresh cache file holds) holds three afterwards.
\<close>

theorem held_list_counterexample:
  "fst (get_data_atc example_env False (\<lambda>k. Atc_raises TimeoutException) three_held) = True
   \<and> length (atc (snd (get_data_atc example_env False (\<lambda>k. Atc_raises TimeoutException)
        three_held))) = 3"
  by (simp add: get_data_atc_def three_held_def held_def)

text \<open>
  Claim C8, amended. A Source C fetch that goes to the network (\<open>force_refresh\<close>,
  or an empty list) and succeeds holds one or two contests, whatever the number of cells
  of the page. A call without \<open>force_refresh\<close> on a list that is not empty succeeds
  with no request and leaves the manager as it is. So a list of at most two contests
  stays one after every call.
\<close>

theorem atc_fetch_at_most_two:
  "(force \<or> atc s = [] \<longrightarrow> fst (get_data_atc e force net s) = True \<longrightarrow>
      atc (snd (get_data_atc e force net s)) \<noteq> []
      \<and> length (atc (snd (get_data_atc e force net s))) \<le> 2)
   \<and> (\<not> force \<and> atc s \<noteq> [] \<longrightarrow> get_data_atc e force net s = (True, s))
   \<and> (length (atc s) \<le> 2 \<longrightarrow> length (atc (snd (get_data_atc e force net s))) \<le> 2)"
proof -
  have fetched: "atc (snd (get_data_atc e force net s)) \<noteq> []
      \<and> length (atc (snd (get_data_atc e force net s))) \<le> 2"
    if going: "force \<or> atc s = []" and ok: "fst (get_data_atc e force net s) = True"
  proof -
    obtain s' where g: "get_data_atc e force net s = (True, s')"
      using ok by (cases "get_data_atc e force net s") auto
    with going have "retry_loop (\<lambda>k. atc_attempt e (net k)) [0..<max_retries] s = (True, s')"
      by (auto simp: get_data_atc_def)
    from retry_loop_success [OF this] obtain k s0 where
      "atc_attempt e (net k) s0 = (Returned, s')" by auto
    from atc_attempt_returned [OF this] g show ?thesis by simp
  qed
  have early: "get_data_atc e force net s = (True, s)" if "\<not> force \<and> atc s \<noteq> []"
    using that by (simp add: get_data_atc_def)
  have inv: "length (atc (snd (get_data_atc e force net s))) \<le> 2" if "length (atc s) \<le> 2"
  proof (cases "\<not> force \<and> atc s \<noteq> []")
    case True
    with that early show ?thesis by simp
  next
    case False
    show ?thesis
    proof (cases "fst (get_data_atc e force net s)")
      case True
      with False fetched show ?thesis by simp
    next
      case False
      then have "atc (snd (get_data_atc e force net s)) = []"
        by (simp add: get_data_atc_failed)
      then show ?thesis by simp
    qed
  qed
  from fetched early inv show ?thesis by blast
qed

theorem atc_fetch_at_most_two_witness:
  "(False \<or> atc (held []) = [])
   \<and> length three_rows = 15
   \<and> fst (get_data_atc example_env False (\<lambda>k. Atc_page (Some (Some three_rows))) (held [])) = True
   \<and> atc (snd (get_data_atc example_env False (\<lambda>k. Atc_page (Some (Some three_rows))) (held [])))
       = [(''ABC 1'', ''2030-01-01 21:00'', ''https://atcoder.jp/contests/x''),
          (''ABC 2'', ''2030-01-01 21:00'', ''https://atcoder.jp/contests/x'')]
   \<and> length (atc (snd (get_data_atc example_env False
         (\<lambda>k. Atc_page (Some (Some three_rows))) (held [])))) \<le> 2"
proof -
  have h: "False \<or> atc (held []) = []"
    by (simp add: held_sel)
  have f: "fst (get_data_atc example_env False (\<lambda>k. Atc_page (Some (Some three_rows))) (held [])) = True"
    by (simp add: three_rows_fetch)
  note bound = atc_fetch_at_most_two [of False "held []" example_env
      "\<lambda>k. Atc_page (Some (Some three_rows))", THEN conjunct1, THEN mp, OF h, THEN mp, OF f,
      THEN conjunct2]
  have l: "atc (snd (get_data_atc example_env False (\<lambda>k. Atc_page (Some (Some three_rows))) (held [])))
       = [(''ABC 1'', ''2030-01-01 21:00'', ''https://atcoder.jp/contests/x''),
          (''ABC 2'', ''2030-01-01 21:00'', ''https://atcoder.jp/contests/x'')]"
    by (simp add: three_rows_fetch)
  show ?thesis
    by (intro conjI) (rule h three_rows_length f l bound)+
qed

subsection \<open>The today query\<close>

text \<open>
  Claim C2, as stated: the error reply is given if and only if the three lists are
  empty and no source has ever succeeded. Source A succeeds with an empty result while
  the other two sources fail: a source has succeeded, and the reply is the error reply.
\<close>

theorem success_with_empty_result_counterexample:
  "fst (get_data_cf example_env False (\<lambda>k. Cf_json (Some ''OK'') (Some [])) (held [])) = True
   \<and> fst (get_today_info example_env (\<lambda>k. Cf_json (Some ''OK'') (Some []))
          (\<lambda>k. (0, Nc_raises TimeoutException)) (\<lambda>k. Atc_raises TimeoutException) (held []))
       = Query_failed"
  by (simp add: get_today_info_def fetch_eval)

text \<open>
  Claim C2, amended. The today query gives the error reply, and not the reply for a day
  without contests, if and only if the three lists it holds after its refresh are all
  empty. Whether a source has succeeded plays no part: nothing records it.
\<close>

theorem today_query_failed_iff_lists_empty:
  "(fst (get_today_info e net_cf net_nc net_atc s) = Query_failed)
     = (cf (snd (get_today_info e net_cf net_nc net_atc s)) = []
        \<and> nc (snd (get_today_info e net_cf net_nc net_atc s)) = []
        \<and> atc (snd (get_today_info e net_cf net_nc net_atc s)) = [])"
  by (simp add: get_today_info_def Let_def)

theorem today_query_failed_iff_lists_empty_witness:
  "fst (get_today_info example_env (\<lambda>k. Cf_raises TimeoutException)
          (\<lambda>k. (0, Nc_raises TimeoutException)) (\<lambda>k. Atc_raises TimeoutException) (held []))
       = Query_failed
   \<and> fst (get_today_info example_env (\<lambda>k. Cf_json (Some ''OK'') (Some feed))
          (\<lambda>k. (0, Nc_raises TimeoutException)) (\<lambda>k. Atc_raises TimeoutException) (held []))
       = Today_contests
           [(Codeforces,
             [(''Round A'', ''2030-01-01 00:00'', ''https://codeforces.com/contest/11''),
              (''Round B'', ''2030-01-01 00:00'', ''https://codeforces.com/contest/12'')])]"
  using today_query_failed_iff_lists_empty [of example_env "\<lambda>k. Cf_raises TimeoutException"
      "\<lambda>k. (0, Nc_raises TimeoutException)" "\<lambda>k. Atc_raises TimeoutException" "held []"]
    today_query_failed_iff_lists_empty [of example_env "\<lambda>k. Cf_json (Some ''OK'') (Some feed)"
      "\<lambda>k. (0, Nc_raises TimeoutException)" "\<lambda>k. Atc_raises TimeoutException" "held []"]
  by (simp add: get_today_info_def fetch_eval feed_def entry_def str_int_eval Let_def
      platform_contests_def)

section \<open>Properties of the reminder loop\<close>

text \<open>
  Claim C9, as stated: at every iteration with a valid fire time a next fire time is
  computed, strictly later than the current time and at most 24 hours ahead. On
  9999-12-31 at 08:31 with the fire time 08:30 none is computed: adding the day raises
  \<open>OverflowError\<close>, and the iteration sleeps an hour.
\<close>

theorem last_day_counterexample:
  "valid_datetime last_day
   \<and> reminder_iteration last_day (Some 8) (Some 30) = Exception_sleep OverflowError 3600"
  by (simp add: last_day_def valid_datetime_def max_ordinal_def reminder_iteration_def
      dt_replace_def dt_le_def dt_fields_def add_days_def)

text \<open>
  Claim C9, amended. With a valid fire time (hour 0 to 23, minute 0 to 59) the
  iteration either waits for a target time that is strictly later than the current time
  and at most 24 hours ahead, the fire time of today or of tomorrow, or, on the last
  date 9999-12-31 once the fire time of that day is not later than the current time,
  computes no target and sleeps an hour after the \<open>OverflowError\<close>. With the fire
  time 08:30 and the current time 08:31, the target is 08:30 of the following day.
\<close>

theorem next_fire_time_bounds:
  assumes "valid_datetime now" and "0 \<le> h" and "h \<le> 23" and "0 \<le> m" and "m \<le> 59"
  shows "case reminder_iteration now (Some h) (Some m) of
           Wait_until target_time wait \<Rightarrow>
             valid_datetime target_time
             \<and> dt_less now target_time \<and> 0 < wait \<and> wait \<le> 86400000000
             \<and> wait = dt_diff target_time now
             \<and> hour target_time = h \<and> minute target_time = m
             \<and> second target_time = 0 \<and> microsecond target_time = 0
             \<and> (ordinal target_time = ordinal now \<or> ordinal target_time = ordinal now + 1)
         | Exception_sleep err d \<Rightarrow>
             err = OverflowError \<and> d = 3600 \<and> ordinal now = max_ordinal
             \<and> dt_le (now\<lparr>hour := h, minute := m, second := 0, microsecond := 0\<rparr>) now
         | Config_error_sleep d \<Rightarrow> False"
proof -
  let ?t = "now\<lparr>hour := h, minute := m, second := 0, microsecond := 0\<rparr>"
  have r: "dt_replace now h m = Inr ?t"
    using assms by (simp add: dt_replace_def)
  have v: "valid_datetime ?t"
    using assms by (simp add: valid_datetime_def)
  show ?thesis
  proof (cases "dt_le ?t now")
    case le: True
    show ?thesis
    proof (cases "ordinal now = max_ordinal")
      case True
      then have "add_days ?t 1 = Inl OverflowError"
        by (simp add: add_days_def)
      with le r True show ?thesis
        by (simp add: reminder_iteration_def)
    next
      case False
      let ?u = "?t\<lparr>ordinal := ordinal now + 1\<rparr>"
      from False assms(1) have a: "add_days ?t 1 = Inr ?u"
        by (simp add: add_days_def valid_datetime_def)
      from False assms have vu: "valid_datetime ?u"
        by (simp add: valid_datetime_def)
      have "\<not> dt_le ?u now"
        by (simp add: dt_le_def dt_fields_def)
      moreover from le assms
      have "0 < dt_diff ?u now \<and> dt_diff ?u now \<le> 86400000000"
        by (auto simp: dt_le_def dt_fields_def dt_diff_def valid_datetime_def)
      ultimately show ?thesis using le r a vu
        by (simp add: reminder_iteration_def dt_less_def)
    qed
  next
    case False
    moreover from False assms
    have "0 < dt_diff ?t now \<and> dt_diff ?t now \<le> 86400000000"
      by (auto simp: dt_le_def dt_fields_def dt_diff_def valid_datetime_def)
    ultimately show ?thesis using r v
      by (simp add: reminder_iteration_def dt_less_def)
  qed
qed

lemma eight_thirty_one_iteration:
  "reminder_iteration eight_thirty_one (Some 8) (Some 30)
     = Wait_until \<lparr>ordinal = 741001, hour = 8, minute = 30, second = 0, microsecond = 0\<rparr>
         86340000000"
  by (simp add: eight_thirty_one_def reminder_iteration_def dt_replace_def dt_le_def
      dt_fields_def add_days_def dt_diff_def max_ordinal_def)

theorem next_fire_time_bounds_witness:
  "valid_datetime eight_thirty_one
   \<and> reminder_iteration eight_thirty_one (Some 8) (Some 30)
       = Wait_until \<lparr>ordinal = 741001, hour = 8, minute = 30, second = 0, microsecond = 0\<rparr>
           86340000000
   \<and> dt_less eight_thirty_one
        \<lparr>ordinal = 741001, hour = 8, minute = 30, second = 0, microsecond = 0\<rparr>
   \<and> (0::int) < 86340000000 \<and> (86340000000::int) \<le> 86400000000"
proof -
  have v: "valid_datetime eight_thirty_one"
    by (simp add: eight_thirty_one_def valid_datetime_def max_ordinal_def)
  from next_fire_time_bounds [OF v, of 8 30]
  have "dt_less eight_thirty_one
          \<lparr>ordinal = 741001, hour = 8, minute = 30, second = 0, microsecond = 0\<rparr>"
    by (simp add: eight_thirty_one_iteration)
  with v eight_thirty_one_iteration show ?thesis by simp
qed

end
